theory Spec2Isabelle
  imports Complex_Main "HOL-Library.Product_Lexorder" "HOL-Library.List_Lexorder"
    "HOL-Library.Char_ord"
begin

section \<open>Numbers\<close>

text \<open>
  The program computes with binary floating-point numbers, in Python and in the script of
  the generated page. The development idealises them as exact rationals: every value is
  finite and every operation is exact. Python's \<open>round(x, 4)\<close> rounds to the nearest
  multiple of \<open>1/10000\<close>, an exact tie going to the even neighbour.
\<close>

definition round_half_even :: "rat \<Rightarrow> int" where
  "round_half_even x =
     (let f = \<lfloor>x\<rfloor>; d = x - of_int f
      in if d < 1 / 2 then f
         else if 1 / 2 < d then f + 1
         else if even f then f else f + 1)"

definition round4 :: "rat \<Rightarrow> rat" where
  "round4 x = of_int (round_half_even (x * 10000)) / 10000"

section \<open>Exceptions\<close>

text \<open>
  A call that can raise returns a sum, \<open>Inl\<close> for the exception raised. \<open>CsvError\<close> is the
  \<open>Error\<close> of the CSV library.
\<close>

datatype exn = ValueError | IndexError | TypeError | OverflowError | RuntimeError | CsvError

section \<open>Text\<close>

text \<open>
  A cell of the feed is ASCII text. \<open>strip\<close> removes the whitespace of Python at both
  ends (the characters 9 to 13 and 28 to 32); \<open>upper\<close> and \<open>lower\<close> change the 26
  letters only.
\<close>

definition is_space :: "char \<Rightarrow> bool" where
  "is_space c \<longleftrightarrow> c \<in> set [CHR 0x09, CHR 0x0A, CHR 0x0B, CHR 0x0C, CHR 0x0D,
                                 CHR 0x1C, CHR 0x1D, CHR 0x1E, CHR 0x1F, CHR 0x20]"

definition strip :: "string \<Rightarrow> string" where
  "strip s = rev (dropWhile is_space (rev (dropWhile is_space s)))"

definition lowers :: string where "lowers = ''abcdefghijklmnopqrstuvwxyz''"
definition uppers :: string where "uppers = ''ABCDEFGHIJKLMNOPQRSTUVWXYZ''"

definition upper_char :: "char \<Rightarrow> char" where
  "upper_char c = (case map_of (zip lowers uppers) c of Some u \<Rightarrow> u | None \<Rightarrow> c)"

definition lower_char :: "char \<Rightarrow> char" where
  "lower_char c = (case map_of (zip uppers lowers) c of Some l \<Rightarrow> l | None \<Rightarrow> c)"

definition upper :: "string \<Rightarrow> string" where
  "upper s = map upper_char s"

definition lower :: "string \<Rightarrow> string" where
  "lower s = map lower_char s"

definition digit_val :: "char \<Rightarrow> nat option" where
  "digit_val c = map_of (zip ''0123456789'' [0..<10]) c"

definition is_digit :: "char \<Rightarrow> bool" where
  "is_digit c \<longleftrightarrow> digit_val c \<noteq> None"

text \<open>\<open>sub in s\<close>: the text \<open>sub\<close> occurs in \<open>s\<close>.\<close>

fun contains :: "string \<Rightarrow> string \<Rightarrow> bool" where
  "contains sub [] = (sub = [])"
| "contains sub (c # cs) = (take (length sub) (c # cs) = sub \<or> contains sub cs)"

text \<open>The first position at which a predicate holds, as \<open>enumerate\<close> with \<open>break\<close> finds it.\<close>

fun find_index_from :: "nat \<Rightarrow> ('a \<Rightarrow> bool) \<Rightarrow> 'a list \<Rightarrow> nat option" where
  "find_index_from n P [] = None"
| "find_index_from n P (x # xs) = (if P x then Some n else find_index_from (Suc n) P xs)"

definition find_index :: "('a \<Rightarrow> bool) \<Rightarrow> 'a list \<Rightarrow> nat option" where
  "find_index P xs = find_index_from 0 P xs"

text \<open>
  \<open>xs[i]\<close> for an index that is a position or \<open>None\<close>: a position outside the list raises
  \<open>IndexError\<close>, and \<open>None\<close> is no index at all.
\<close>

definition getitem :: "'a list \<Rightarrow> nat option \<Rightarrow> exn + 'a" where
  "getitem xs i = (case i of None \<Rightarrow> Inl TypeError
                   | Some n \<Rightarrow> if n < length xs then Inr (xs ! n) else Inl IndexError)"

section \<open>Calendar dates\<close>

text \<open>
  The program keeps the date of an observation as the text that \<open>strftime\<close> writes for
  \<open>%Y-%m-%d\<close>, orders observations by that text, and reads it back with \<open>strptime\<close>
  where it computes with dates. The model keeps the calendar date and has the text as a
  function of it, \<open>strftime_ymd\<close>: the parser sorts by the text. The statistics and the
  reconciliation are modelled on the date itself, which is what reading the text back gives
  for a year of four digits. A \<open>cal_date\<close> stands for a date of the calendar, as
  \<open>make_date\<close> builds it. A \<open>datetime\<close> at midnight is its day number (\<open>toordinal\<close>, 1 for
  1 January of year 1).
\<close>

record cal_date =
  year :: nat
  month :: nat
  day :: nat

definition date_key :: "cal_date \<Rightarrow> nat \<times> nat \<times> nat" where
  "date_key d = (year d, month d, day d)"

definition is_leap :: "nat \<Rightarrow> bool" where
  "is_leap y \<longleftrightarrow> y mod 4 = 0 \<and> (y mod 100 \<noteq> 0 \<or> y mod 400 = 0)"

definition days_in_month :: "nat \<Rightarrow> nat \<Rightarrow> nat" where
  "days_in_month y m =
     (if m = 2 \<and> is_leap y then 29
      else [0, 31, 28, 31, 30, 31, 30, 31, 31, 30, 31, 30, 31] ! m)"

definition days_before_year :: "nat \<Rightarrow> int" where
  "days_before_year y0 = (let y = int y0 - 1 in y * 365 + y div 4 - y div 100 + y div 400)"

definition days_before_month :: "nat \<Rightarrow> nat \<Rightarrow> int" where
  "days_before_month y m =
     int ([0, 0, 31, 59, 90, 120, 151, 181, 212, 243, 273, 304, 334] ! m)
     + (if 2 < m \<and> is_leap y then 1 else 0)"

definition toordinal :: "cal_date \<Rightarrow> int" where
  "toordinal d = days_before_year (year d) + days_before_month (year d) (month d) + int (day d)"

text \<open>The constructor \<open>datetime(y, m, d)\<close> with its range checks.\<close>

definition make_date :: "nat \<Rightarrow> nat \<Rightarrow> nat \<Rightarrow> exn + cal_date" where
  "make_date y m d =
     (if 1 \<le> y \<and> y \<le> 9999 \<and> 1 \<le> m \<and> m \<le> 12 \<and> 1 \<le> d \<and> d \<le> days_in_month y m
      then Inr \<lparr>year = y, month = m, day = d\<rparr> else Inl ValueError)"

text \<open>The ranges of a date that the constructor accepts, with the longest month.\<close>

definition calendar_date :: "cal_date \<Rightarrow> bool" where
  "calendar_date d \<longleftrightarrow> 1 \<le> year d \<and> year d \<le> 9999 \<and> month d \<le> 12 \<and> day d \<le> 31"

text \<open>
  \<open>strftime("%Y-%m-%d")\<close> as the C library of Linux writes it: month and day with two
  digits, the year with the digits it has, so without leading zeros below the year 1000.
  Texts are ordered as Python orders them, character by character.
\<close>

definition digit_char :: "nat \<Rightarrow> char" where
  "digit_char n = ''0123456789'' ! (n mod 10)"

definition pad2 :: "nat \<Rightarrow> string" where
  "pad2 n = [digit_char (n div 10), digit_char n]"

definition year_text :: "nat \<Rightarrow> string" where
  "year_text y =
     (if y < 10 then [digit_char y]
      else if y < 100 then [digit_char (y div 10), digit_char y]
      else if y < 1000 then [digit_char (y div 100), digit_char (y div 10), digit_char y]
      else [digit_char (y div 1000), digit_char (y div 100), digit_char (y div 10), digit_char y])"

definition strftime_ymd :: "cal_date \<Rightarrow> string" where
  "strftime_ymd d = year_text (year d) @ ''-'' @ pad2 (month d) @ ''-'' @ pad2 (day d)"

text \<open>\<open>dt - timedelta(days=n)\<close> on day numbers: a result before year 1 is an \<open>OverflowError\<close>.\<close>

definition minus_days :: "int \<Rightarrow> int \<Rightarrow> exn + int" where
  "minus_days dt n = (if dt - n < 1 then Inl OverflowError else Inr (dt - n))"

section \<open>Reading a date: \<open>strptime\<close>\<close>

text \<open>
  \<open>strptime\<close> turns the format into a regular expression and matches it at the start of
  the text, backtracking in the order of the alternatives. The model has the directives
  that the program's formats use; a run of whitespace in the format stands for one or
  more whitespace characters. A matcher returns its matches in the order in which the
  backtracking search tries them, each with the rest of the text.
\<close>

datatype directive = Dir_d | Dir_m | Dir_b | Dir_B | Dir_Y | Ws | Lit char | Bad

fun compile_format :: "string \<Rightarrow> directive list" where
  "compile_format [] = []"
| "compile_format [c] = (if is_space c then [Ws] else if c = CHR ''%'' then [Bad] else [Lit c])"
| "compile_format (c # c' # cs) =
     (if c = CHR ''%'' then
        (if c' = CHR ''d'' then Dir_d else if c' = CHR ''m'' then Dir_m
         else if c' = CHR ''b'' then Dir_b else if c' = CHR ''B'' then Dir_B
         else if c' = CHR ''Y'' then Dir_Y else Bad) # compile_format cs
      else if is_space c then
        (if is_space c' then compile_format (c' # cs) else Ws # compile_format (c' # cs))
      else Lit c # compile_format (c' # cs))"

datatype field = Fd nat | Fm nat | FY nat

definition month_abbrs :: "string list" where
  "month_abbrs = [''jan'', ''feb'', ''mar'', ''apr'', ''may'', ''jun'',
                  ''jul'', ''aug'', ''sep'', ''oct'', ''nov'', ''dec'']"

definition month_names :: "string list" where
  "month_names = [''january'', ''february'', ''march'', ''april'', ''may'', ''june'',
                  ''july'', ''august'', ''september'', ''october'', ''november'', ''december'']"

text \<open>The alternatives of a month name, the longest names first, as the library orders them.\<close>

definition names_by_length :: "string list \<Rightarrow> (string \<times> nat) list" where
  "names_by_length names = rev (sort_key (\<lambda>p. length (fst p)) (rev (zip names [1..<13])))"

definition match_name :: "string list \<Rightarrow> string \<Rightarrow> (field \<times> string) list" where
  "match_name names s =
     concat (map (\<lambda>(name, m). if lower (take (length name) s) = name
                               then [(Fm m, drop (length name) s)] else [])
                 (names_by_length names))"

definition dv :: "char \<Rightarrow> nat" where
  "dv c = (case digit_val c of Some n \<Rightarrow> n | None \<Rightarrow> 0)"

text \<open>\<open>%d\<close> is \<open>3[0-1]|[1-2]\d|0[1-9]|[1-9]| [1-9]\<close>.\<close>

definition match_d :: "string \<Rightarrow> (field \<times> string) list" where
  "match_d s =
     (case s of
        c1 # c2 # r \<Rightarrow>
          (if c1 = CHR ''3'' \<and> (c2 = CHR ''0'' \<or> c2 = CHR ''1'') then [(Fd (30 + dv c2), r)] else [])
        @ (if (c1 = CHR ''1'' \<or> c1 = CHR ''2'') \<and> is_digit c2 then [(Fd (10 * dv c1 + dv c2), r)] else [])
        @ (if c1 = CHR ''0'' \<and> is_digit c2 \<and> c2 \<noteq> CHR ''0'' then [(Fd (dv c2), r)] else [])
        @ (if is_digit c1 \<and> c1 \<noteq> CHR ''0'' then [(Fd (dv c1), c2 # r)] else [])
        @ (if c1 = CHR '' '' \<and> is_digit c2 \<and> c2 \<noteq> CHR ''0'' then [(Fd (dv c2), r)] else [])
      | [c1] \<Rightarrow> (if is_digit c1 \<and> c1 \<noteq> CHR ''0'' then [(Fd (dv c1), [])] else [])
      | [] \<Rightarrow> [])"

text \<open>\<open>%m\<close> is \<open>1[0-2]|0[1-9]|[1-9]\<close>.\<close>

definition match_m :: "string \<Rightarrow> (field \<times> string) list" where
  "match_m s =
     (case s of
        c1 # c2 # r \<Rightarrow>
          (if c1 = CHR ''1'' \<and> (c2 = CHR ''0'' \<or> c2 = CHR ''1'' \<or> c2 = CHR ''2'')
           then [(Fm (10 + dv c2), r)] else [])
        @ (if c1 = CHR ''0'' \<and> is_digit c2 \<and> c2 \<noteq> CHR ''0'' then [(Fm (dv c2), r)] else [])
        @ (if is_digit c1 \<and> c1 \<noteq> CHR ''0'' then [(Fm (dv c1), c2 # r)] else [])
      | [c1] \<Rightarrow> (if is_digit c1 \<and> c1 \<noteq> CHR ''0'' then [(Fm (dv c1), [])] else [])
      | [] \<Rightarrow> [])"

text \<open>\<open>%Y\<close> is four digits.\<close>

definition match_Y :: "string \<Rightarrow> (field \<times> string) list" where
  "match_Y s =
     (case s of
        c1 # c2 # c3 # c4 # r \<Rightarrow>
          if is_digit c1 \<and> is_digit c2 \<and> is_digit c3 \<and> is_digit c4
          then [(FY (1000 * dv c1 + 100 * dv c2 + 10 * dv c3 + dv c4), r)] else []
      | _ \<Rightarrow> [])"

text \<open>\<open>\s+\<close> is greedy: the longest run first, then the shorter ones.\<close>

fun match_ws :: "string \<Rightarrow> string list" where
  "match_ws [] = []"
| "match_ws (c # cs) = (if is_space c then match_ws cs @ [cs] else [])"

definition match_directive :: "directive \<Rightarrow> string \<Rightarrow> (field option \<times> string) list" where
  "match_directive d s =
     (case d of
        Dir_d \<Rightarrow> map (\<lambda>(f, r). (Some f, r)) (match_d s)
      | Dir_m \<Rightarrow> map (\<lambda>(f, r). (Some f, r)) (match_m s)
      | Dir_b \<Rightarrow> map (\<lambda>(f, r). (Some f, r)) (match_name month_abbrs s)
      | Dir_B \<Rightarrow> map (\<lambda>(f, r). (Some f, r)) (match_name month_names s)
      | Dir_Y \<Rightarrow> map (\<lambda>(f, r). (Some f, r)) (match_Y s)
      | Ws \<Rightarrow> map (\<lambda>r. (None, r)) (match_ws s)
      | Lit c \<Rightarrow> (case s of [] \<Rightarrow> [] | x # r \<Rightarrow> if lower_char x = lower_char c then [(None, r)] else [])
      | Bad \<Rightarrow> [])"

fun match_format :: "directive list \<Rightarrow> string \<Rightarrow> field list \<Rightarrow> (field list \<times> string) list" where
  "match_format [] s fs = [(fs, s)]"
| "match_format (d # ds) s fs =
     concat (map (\<lambda>(f, r). match_format ds r (case f of None \<Rightarrow> fs | Some x \<Rightarrow> fs @ [x]))
                 (match_directive d s))"

fun field_year :: "field list \<Rightarrow> nat" where
  "field_year [] = 1900"
| "field_year (FY y # fs) = y"
| "field_year (f # fs) = field_year fs"

fun field_month :: "field list \<Rightarrow> nat" where
  "field_month [] = 1"
| "field_month (Fm m # fs) = m"
| "field_month (f # fs) = field_month fs"

fun field_day :: "field list \<Rightarrow> nat" where
  "field_day [] = 1"
| "field_day (Fd d # fs) = d"
| "field_day (f # fs) = field_day fs"

text \<open>
  The first match decides: no match, or a match that leaves text unread, is a
  \<open>ValueError\<close>, and so is a day that the month does not have.
\<close>

definition strptime :: "string \<Rightarrow> string \<Rightarrow> exn + cal_date" where
  "strptime data_string format =
     (case match_format (compile_format format) data_string [] of
        [] \<Rightarrow> Inl ValueError
      | (fs, rest) # _ \<Rightarrow>
          if rest \<noteq> [] then Inl ValueError
          else make_date (field_year fs) (field_month fs) (field_day fs))"

subsection \<open>\<open>parse_boe_date\<close>\<close>

definition formats :: "string list" where
  "formats = [''%d %b %Y'', ''%d %B %Y'', ''%d/%m/%Y'', ''%Y-%m-%d'']"

fun try_formats :: "string \<Rightarrow> string list \<Rightarrow> exn + cal_date" where
  "try_formats date_str [] = Inl ValueError"
| "try_formats date_str (fmt # fmts) =
     (case strptime date_str fmt of
        Inr d \<Rightarrow> Inr d
      | Inl e \<Rightarrow> if e = ValueError then try_formats date_str fmts else Inl e)"

definition parse_boe_date :: "string \<Rightarrow> exn + cal_date" where
  "parse_boe_date date_str = try_formats date_str formats"

section \<open>Reading a number: \<open>float\<close>\<close>

text \<open>
  A float of Python is a finite number, an infinity or \<open>nan\<close>. The parser keeps what
  \<open>float\<close> gives, so its values are of this type; the statistics, the reconciliation and the
  calculator are modelled on finite values, as rationals.
\<close>

datatype pyfloat = Finite rat | PosInf | NegInf | NotANumber

text \<open>
  \<open>float(text)\<close>: whitespace around the text is dropped; then an optional sign, then
  \<open>inf\<close>, \<open>infinity\<close> or \<open>nan\<close> in any case, or digits with an optional point, one digit at
  least, and an optional exponent; an underscore may stand between two digits. A decimal literal
  is read as its exact value, and as an infinity from the magnitude on that rounds beyond
  the largest double, \<open>2^1024 - 2^970\<close>.
\<close>

fun underscores_ok :: "char option \<Rightarrow> string \<Rightarrow> bool" where
  "underscores_ok prev [] = True"
| "underscores_ok prev (c # cs) =
     ((c = CHR ''_'' \<longrightarrow>
         (case prev of None \<Rightarrow> False | Some p \<Rightarrow> is_digit p)
         \<and> (case cs of [] \<Rightarrow> False | n # _ \<Rightarrow> is_digit n))
      \<and> underscores_ok (Some c) cs)"

definition digits_val :: "string \<Rightarrow> nat" where
  "digits_val ds = fold (\<lambda>c n. 10 * n + dv c) ds 0"

definition split_sign :: "string \<Rightarrow> bool \<times> string" where
  "split_sign s =
     (case s of [] \<Rightarrow> (False, s)
      | c # r \<Rightarrow> if c = CHR ''-'' then (True, r) else if c = CHR ''+'' then (False, r)
                 else (False, s))"

text \<open>The exponent part, which must end the text: \<open>None\<close> when the text is malformed.\<close>

definition exponent :: "string \<Rightarrow> int option" where
  "exponent s =
     (case s of [] \<Rightarrow> Some 0
      | c # r \<Rightarrow>
          if c = CHR ''e'' \<or> c = CHR ''E'' then
            (case split_sign r of
               (neg, ds) \<Rightarrow>
                 if ds \<noteq> [] \<and> list_all is_digit ds
                 then Some (if neg then - int (digits_val ds) else int (digits_val ds))
                 else None)
          else None)"

definition scale10 :: "rat \<Rightarrow> int \<Rightarrow> rat" where
  "scale10 x e = (if 0 \<le> e then x * 10 ^ nat e else x / 10 ^ nat (- e))"

definition overflow_from :: rat where
  "overflow_from = 2 ^ 1024 - 2 ^ 970"

definition signed_float :: "bool \<Rightarrow> rat \<Rightarrow> pyfloat" where
  "signed_float neg m =
     (if overflow_from \<le> m then (if neg then NegInf else PosInf)
      else Finite (if neg then - m else m))"

definition py_float :: "string \<Rightarrow> exn + pyfloat" where
  "py_float text =
     (if \<not> underscores_ok None (strip text) then Inl ValueError
      else case split_sign (filter (\<lambda>c. c \<noteq> CHR ''_'') (strip text)) of
        (neg, s1) \<Rightarrow>
          if lower s1 = ''inf'' \<or> lower s1 = ''infinity''
            then Inr (if neg then NegInf else PosInf)
          else if lower s1 = ''nan'' then Inr NotANumber
          else
            let ip = takeWhile is_digit s1;
                s2 = dropWhile is_digit s1;
                has_point = (s2 \<noteq> [] \<and> hd s2 = CHR ''.'');
                fp = (if has_point then takeWhile is_digit (tl s2) else []);
                s3 = (if has_point then dropWhile is_digit (tl s2) else s2)
            in if ip = [] \<and> fp = [] then Inl ValueError
               else case exponent s3 of
                      None \<Rightarrow> Inl ValueError
                    | Some e \<Rightarrow>
                        Inr (signed_float neg
                               (scale10 (of_nat (digits_val (ip @ fp)) / 10 ^ length fp) e)))"

text \<open>\<open>round(x, 4)\<close> leaves an infinity and \<open>nan\<close> as they are.\<close>

definition py_round4 :: "pyfloat \<Rightarrow> pyfloat" where
  "py_round4 x = (case x of Finite v \<Rightarrow> Finite (round4 v) | _ \<Rightarrow> x)"

section \<open>The rows of the feed: the CSV reader\<close>

text \<open>
  The parser iterates \<open>csv.reader(io.StringIO(csv_text))\<close>. The text is cut into lines after
  each line feed, and the reader of the library (in its default dialect: comma, double
  quote, doubled quotes, not strict) runs over the characters of a line and then over an
  end-of-line mark, \<open>None\<close> here. It raises its \<open>Error\<close> on a character other than a carriage
  return or a line feed after one of these two outside quotes, and on a field that grows
  beyond 131072 characters.
\<close>

fun lines_from :: "string \<Rightarrow> string \<Rightarrow> string list" where
  "lines_from cur [] = (if cur = [] then [] else [cur])"
| "lines_from cur (c # cs) =
     (if c = CHR 0x0A then (cur @ [c]) # lines_from [] cs else lines_from (cur @ [c]) cs)"

datatype reader_mode =
  START_RECORD | START_FIELD | IN_FIELD | IN_QUOTED_FIELD | QUOTE_IN_QUOTED_FIELD | EAT_CRNL

text \<open>The state of the reader: the fields of the row so far, the field being read and its length.\<close>

record reader =
  mode :: reader_mode
  row_fields :: "string list"
  field :: string
  field_len :: int

definition field_limit :: int where
  "field_limit = 131072"

definition parse_reset :: reader where
  "parse_reset = \<lparr>mode = START_RECORD, row_fields = [], field = [], field_len = 0\<rparr>"

definition parse_add_char :: "reader \<Rightarrow> char \<Rightarrow> exn + reader" where
  "parse_add_char r c =
     (if field_limit \<le> field_len r then Inl CsvError
      else Inr (r\<lparr>field := field r @ [c], field_len := field_len r + 1\<rparr>))"

definition parse_save_field :: "reader \<Rightarrow> reader" where
  "parse_save_field r =
     r\<lparr>row_fields := row_fields r @ [field r], field := [], field_len := 0\<rparr>"

definition is_newline :: "char option \<Rightarrow> bool" where
  "is_newline c \<longleftrightarrow> c = Some (CHR 0x0A) \<or> c = Some (CHR 0x0D)"

definition after_line :: "char option \<Rightarrow> reader_mode" where
  "after_line c = (if c = None then START_RECORD else EAT_CRNL)"

definition start_field :: "reader \<Rightarrow> char option \<Rightarrow> exn + reader" where
  "start_field r c =
     (if is_newline c \<or> c = None then Inr ((parse_save_field r)\<lparr>mode := after_line c\<rparr>)
      else if c = Some (CHR 0x22) then Inr (r\<lparr>mode := IN_QUOTED_FIELD\<rparr>)
      else if c = Some (CHR '','') then Inr ((parse_save_field r)\<lparr>mode := START_FIELD\<rparr>)
      else (case parse_add_char r (the c) of Inl e \<Rightarrow> Inl e
            | Inr r' \<Rightarrow> Inr (r'\<lparr>mode := IN_FIELD\<rparr>)))"

definition parse_process_char :: "reader \<Rightarrow> char option \<Rightarrow> exn + reader" where
  "parse_process_char r c =
     (case mode r of
        START_RECORD \<Rightarrow>
          if c = None then Inr r
          else if is_newline c then Inr (r\<lparr>mode := EAT_CRNL\<rparr>)
          else start_field r c
      | START_FIELD \<Rightarrow> start_field r c
      | IN_FIELD \<Rightarrow>
          if is_newline c \<or> c = None then Inr ((parse_save_field r)\<lparr>mode := after_line c\<rparr>)
          else if c = Some (CHR '','') then Inr ((parse_save_field r)\<lparr>mode := START_FIELD\<rparr>)
          else parse_add_char r (the c)
      | IN_QUOTED_FIELD \<Rightarrow>
          if c = None then Inr r
          else if c = Some (CHR 0x22) then Inr (r\<lparr>mode := QUOTE_IN_QUOTED_FIELD\<rparr>)
          else parse_add_char r (the c)
      | QUOTE_IN_QUOTED_FIELD \<Rightarrow>
          if c = Some (CHR 0x22) then
            (case parse_add_char r (the c) of Inl e \<Rightarrow> Inl e
             | Inr r' \<Rightarrow> Inr (r'\<lparr>mode := IN_QUOTED_FIELD\<rparr>))
          else if c = Some (CHR '','') then Inr ((parse_save_field r)\<lparr>mode := START_FIELD\<rparr>)
          else if is_newline c \<or> c = None then Inr ((parse_save_field r)\<lparr>mode := after_line c\<rparr>)
          else (case parse_add_char r (the c) of Inl e \<Rightarrow> Inl e
                | Inr r' \<Rightarrow> Inr (r'\<lparr>mode := IN_FIELD\<rparr>))
      | EAT_CRNL \<Rightarrow>
          if is_newline c then Inr r
          else if c = None then Inr (r\<lparr>mode := START_RECORD\<rparr>)
          else Inl CsvError)"

text \<open>The characters of a line, then the end-of-line mark.\<close>

fun process_line :: "reader \<Rightarrow> string \<Rightarrow> exn + reader" where
  "process_line r [] = parse_process_char r None"
| "process_line r (c # cs) =
     (case parse_process_char r (Some c) of Inl e \<Rightarrow> Inl e | Inr r' \<Rightarrow> process_line r' cs)"

text \<open>
  The rows that the reader yields, in order, and the error that ends the iteration if
  there is one. A row is complete when a line leaves the reader at the start of a
  record; a line that ends inside quotes continues on the next line. At the end of the
  input an open field closes the last row.
\<close>

fun read_rows :: "reader \<Rightarrow> string list \<Rightarrow> string list list \<times> exn option" where
  "read_rows r [] =
     (if field_len r \<noteq> 0 \<or> mode r = IN_QUOTED_FIELD
      then ([row_fields (parse_save_field r)], None)
      else ([], None))"
| "read_rows r (l # ls) =
     (case process_line r l of
        Inl e \<Rightarrow> ([], Some e)
      | Inr r' \<Rightarrow>
          if mode r' = START_RECORD
          then (case read_rows parse_reset ls of (rows, err) \<Rightarrow> (row_fields r' # rows, err))
          else read_rows r' ls)"

definition csv_reader :: "string \<Rightarrow> string list list \<times> exn option" where
  "csv_reader csv_text = read_rows parse_reset (lines_from [] csv_text)"

section \<open>The feed parser: \<open>parse_boe_csv\<close>\<close>

record 'v observation =
  date :: cal_date
  yield :: 'v

definition SERIES_CODE :: string where
  "SERIES_CODE = ''IUDMNZC''"

text \<open>
  The variables of the loop over the rows are the state; \<open>None\<close> is the \<open>None\<close> of an
  index not found yet.
\<close>

record parser_state =
  header_found :: bool
  date_col :: "nat option"
  yield_col :: "nat option"
  data_points :: "pyfloat observation list"

definition initial_state :: parser_state where
  "initial_state = \<lparr>header_found = False, date_col = None, yield_col = None, data_points = []\<rparr>"

definition blank_row :: "string list \<Rightarrow> bool" where
  "blank_row row \<longleftrightarrow> row = [] \<or> list_all (\<lambda>cell. strip cell = []) row"

definition upper_row :: "string list \<Rightarrow> string list" where
  "upper_row row = map (\<lambda>cell. upper (strip cell)) row"

text \<open>A row with a \<open>DATE\<close> cell, met before the header is found.\<close>

definition header_candidate :: "parser_state \<Rightarrow> string list \<Rightarrow> parser_state" where
  "header_candidate st row =
     (let st1 = st\<lparr>date_col := find_index (\<lambda>cell. cell = ''DATE'') (upper_row row)\<rparr>;
          st2 = (case find_index (contains SERIES_CODE) (upper_row row) of
                   None \<Rightarrow> st1
                 | Some i \<Rightarrow> st1\<lparr>yield_col := Some i\<rparr>)
      in if yield_col st2 \<noteq> None then st2\<lparr>header_found := True\<rparr> else st2)"

text \<open>
  The body of the \<open>try\<close>: \<open>Inr None\<close> is the \<open>continue\<close> on an empty cell, \<open>Inr (Some obs)\<close>
  the observation appended, \<open>Inl\<close> an exception raised in it.
\<close>

definition read_row ::
  "nat option \<Rightarrow> nat option \<Rightarrow> string list \<Rightarrow> exn + pyfloat observation option" where
  "read_row dc yc row =
     (case getitem row dc of Inl e \<Rightarrow> Inl e
      | Inr dcell \<Rightarrow>
     (case getitem row yc of Inl e \<Rightarrow> Inl e
      | Inr ycell \<Rightarrow>
          let date_str = strip dcell; yield_str = strip ycell
          in if date_str = [] \<or> yield_str = [] then Inr None
             else (case parse_boe_date date_str of Inl e \<Rightarrow> Inl e
                   | Inr date_obj \<Rightarrow>
                  (case py_float yield_str of Inl e \<Rightarrow> Inl e
                   | Inr yield_val \<Rightarrow>
                       Inr (Some \<lparr>date = date_obj, yield = py_round4 yield_val\<rparr>)))))"

text \<open>
  One pass of the loop over the rows. The handler catches \<open>ValueError\<close> and \<open>IndexError\<close>;
  any other exception leaves the parser.
\<close>

definition parse_row :: "parser_state \<Rightarrow> string list \<Rightarrow> exn + parser_state" where
  "parse_row st row =
     (if blank_row row then Inr st
      else if \<not> header_found st \<and> ''DATE'' \<in> set (upper_row row) then Inr (header_candidate st row)
      else if \<not> header_found st then Inr st
      else (case read_row (date_col st) (yield_col st) row of
              Inr None \<Rightarrow> Inr st
            | Inr (Some obs) \<Rightarrow> Inr (st\<lparr>data_points := data_points st @ [obs]\<rparr>)
            | Inl e \<Rightarrow> if e = ValueError \<or> e = IndexError then Inr st else Inl e))"

fun parse_rows :: "parser_state \<Rightarrow> string list list \<Rightarrow> exn + parser_state" where
  "parse_rows st [] = Inr st"
| "parse_rows st (row # rows) =
     (case parse_row st row of Inl e \<Rightarrow> Inl e | Inr st' \<Rightarrow> parse_rows st' rows)"

text \<open>
  The rows come from the reader one by one: the rows before an error of the reader are
  handled before the error leaves the parser. The sort by the date text is stable, as the
  sort of Python is.
\<close>

definition date_text :: "'v observation \<Rightarrow> string" where
  "date_text x = strftime_ymd (date x)"

definition parse_boe_csv :: "string \<Rightarrow> exn + pyfloat observation list" where
  "parse_boe_csv csv_text =
     (case csv_reader csv_text of
        (rows, err) \<Rightarrow>
          (case parse_rows initial_state rows of
             Inl e \<Rightarrow> Inl e
           | Inr st \<Rightarrow>
               (case err of
                  Some e \<Rightarrow> Inl e
                | None \<Rightarrow> Inr (sort_key date_text (data_points st)))))"

subsection \<open>The rows that count, told from the rows alone\<close>

text \<open>
  What the parser is to collect, as the specification of the parser says it, without the
  loop and its variables: the theorems below compare the loop with it. The header is the
  first row with
  a cell that is \<open>DATE\<close> and a cell that contains the series code, both after stripping and
  upper-casing; its columns are the first such cells. A row after the header gives an
  observation when it has both columns, neither cell is empty after stripping, the date
  is read by one of the formats and the value is read as a number; the value is rounded
  to four digits.
\<close>

definition is_header :: "string list \<Rightarrow> bool" where
  "is_header row \<longleftrightarrow>
     ''DATE'' \<in> set (upper_row row) \<and> list_ex (contains SERIES_CODE) (upper_row row)"

definition valid_observation :: "nat \<Rightarrow> nat \<Rightarrow> string list \<Rightarrow> pyfloat observation option" where
  "valid_observation i j row =
     (if i < length row \<and> j < length row \<and> strip (row ! i) \<noteq> [] \<and> strip (row ! j) \<noteq> [] then
        (case parse_boe_date (strip (row ! i)) of
           Inl e \<Rightarrow> None
         | Inr d \<Rightarrow>
             (case py_float (strip (row ! j)) of
                Inl e \<Rightarrow> None
              | Inr v \<Rightarrow> Some \<lparr>date = d, yield = py_round4 v\<rparr>))
      else None)"

fun valid_observations :: "string list list \<Rightarrow> pyfloat observation list" where
  "valid_observations [] = []"
| "valid_observations (row # rows) =
     (if is_header row
      then List.map_filter
             (valid_observation (the (find_index (\<lambda>cell. cell = ''DATE'') (upper_row row)))
                                (the (find_index (contains SERIES_CODE) (upper_row row))))
             rows
      else valid_observations rows)"

section \<open>Statistics of a series: \<open>find_nearest_value\<close> and \<open>compute_stats\<close>\<close>

text \<open>The target of a lookup is a \<open>datetime\<close> at midnight, a day number.\<close>

definition day_diff :: "int \<Rightarrow> rat observation \<Rightarrow> int" where
  "day_diff target d = \<bar>toordinal (date d) - target\<bar>"

text \<open>One pass of the loop; the pair is \<open>(best, best_diff)\<close>.\<close>

definition nearest_step ::
  "int \<Rightarrow> rat observation \<Rightarrow> rat option \<times> int option \<Rightarrow> rat option \<times> int option" where
  "nearest_step target d acc =
     (case acc of (best, best_diff) \<Rightarrow>
        let diff = day_diff target d
        in if (case best_diff of None \<Rightarrow> True | Some b \<Rightarrow> diff < b)
           then (Some (yield d), Some diff) else (best, best_diff))"

definition find_nearest_value :: "rat observation list \<Rightarrow> int \<Rightarrow> rat option" where
  "find_nearest_value dps target = fst (fold (nearest_step target) dps (None, None))"

record stats =
  current_yield :: rat
  current_date :: cal_date
  previous_yield :: rat
  daily_change :: rat
  high_12m :: rat
  low_12m :: rat
  high_date :: cal_date
  low_date :: cal_date
  week_change :: "rat option"
  month_change :: "rat option"
  ytd_change :: "rat option"
  data_points_count :: nat

text \<open>
  \<open>round(current - v, 4) if v else None\<close>: the test is the truth value of \<open>v\<close>, false of
  \<open>None\<close> and of the number zero.
\<close>

definition change_since :: "rat \<Rightarrow> rat option \<Rightarrow> rat option" where
  "change_since cur v =
     (case v of None \<Rightarrow> None
      | Some x \<Rightarrow> if x \<noteq> 0 then Some (round4 (cur - x)) else None)"

text \<open>\<open>data_points[yields.index(v)]["date"]\<close>; \<open>index\<close> raises on a value not in the list.\<close>

definition date_of_first :: "rat observation list \<Rightarrow> rat \<Rightarrow> exn + cal_date" where
  "date_of_first dps v =
     (case find_index (\<lambda>y. y = v) (map yield dps) of
        None \<Rightarrow> Inl ValueError
      | Some i \<Rightarrow> (case getitem dps (Some i) of Inl e \<Rightarrow> Inl e | Inr d \<Rightarrow> Inr (date d)))"

text \<open>\<open>None\<close> is the empty dictionary returned for an empty series.\<close>

definition compute_stats :: "rat observation list \<Rightarrow> exn + stats option" where
  "compute_stats dps =
     (case dps of [] \<Rightarrow> Inr None
      | d0 # ds \<Rightarrow>
          let yields = map yield dps;
              current = last dps;
              previous = (if 2 \<le> length dps then dps ! (length dps - 2) else last dps);
              cur_dt = toordinal (date current);
              hi = fold max (map yield ds) (yield d0);
              lo = fold min (map yield ds) (yield d0)
          in (case minus_days cur_dt 7 of Inl e \<Rightarrow> Inl e
              | Inr week_ago_target \<Rightarrow>
             (case minus_days cur_dt 30 of Inl e \<Rightarrow> Inl e
              | Inr month_ago_target \<Rightarrow>
                  let year_start = toordinal \<lparr>year = year (date current), month = 1, day = 1\<rparr>;
                      week_ago_val = find_nearest_value dps week_ago_target;
                      month_ago_val = find_nearest_value dps month_ago_target;
                      ytd_start_val = find_nearest_value dps year_start
                  in (case date_of_first dps hi of Inl e \<Rightarrow> Inl e
                      | Inr hdate \<Rightarrow>
                     (case date_of_first dps lo of Inl e \<Rightarrow> Inl e
                      | Inr ldate \<Rightarrow>
                         Inr (Some \<lparr>current_yield = yield current,
                                    current_date = date current,
                                    previous_yield = yield previous,
                                    daily_change = round4 (yield current - yield previous),
                                    high_12m = round4 hi,
                                    low_12m = round4 lo,
                                    high_date = hdate,
                                    low_date = ldate,
                                    week_change = change_since (yield current) week_ago_val,
                                    month_change = change_since (yield current) month_ago_val,
                                    ytd_change = change_since (yield current) ytd_start_val,
                                    data_points_count = length dps\<rparr>))))))"

section \<open>Reconciliation with a live quote, in \<open>generate_dashboard\<close>\<close>

text \<open>
  Of the live quote the reconciliation reads the yield, which may be \<open>None\<close>, and the
  timestamp, a text whose key may be missing (\<open>None\<close>).
\<close>

record live_quote =
  quote_yield :: "rat option"
  last_time :: "string option"

text \<open>The subtitle of the yield chart names the spread only when it was applied.\<close>

datatype subtitle = Adjusted rat | Unadjusted

text \<open>
  What the reconciliation leaves for the page: the dates and the yields of the chart, the
  spread, whether it was applied, the headline yield (the local \<open>current_yield\<close>) and its
  source, the subtitle, and the spread printed in the warning when there is one.
\<close>

record dashboard =
  dates_json :: "cal_date list"
  yields_json :: "rat list"
  spread :: rat
  spread_ok :: bool
  headline_yield :: rat
  headline_live :: bool
  chart_subtitle :: subtitle
  warning :: "rat option"

definition SPREAD_MIN :: rat where "SPREAD_MIN = 40 / 100"
definition SPREAD_MAX :: rat where "SPREAD_MAX = 1"

definition has_live :: "live_quote option \<Rightarrow> bool" where
  "has_live live_data \<longleftrightarrow> (case live_data of None \<Rightarrow> False | Some q \<Rightarrow> quote_yield q \<noteq> None)"

text \<open>
  The date of the quote: the timestamp up to its first \<open>T\<close>, read as \<open>%Y-%m-%d\<close>; the
  handler catches \<open>ValueError\<close>, \<open>KeyError\<close> (the missing key) and \<open>IndexError\<close> and falls
  back to the latest date of the series.
\<close>

definition cnbc_date :: "live_quote \<Rightarrow> stats \<Rightarrow> exn + int" where
  "cnbc_date q st =
     (case last_time q of
        None \<Rightarrow> Inr (toordinal (current_date st))
      | Some t \<Rightarrow>
          (case strptime (takeWhile (\<lambda>c. c \<noteq> CHR ''T'') t) ''%Y-%m-%d'' of
             Inr d \<Rightarrow> Inr (toordinal d)
           | Inl e \<Rightarrow> if e = ValueError \<or> e = IndexError
                      then Inr (toordinal (current_date st)) else Inl e))"

definition subtitle_of :: "bool \<Rightarrow> rat \<Rightarrow> subtitle" where
  "subtitle_of ok s = (if ok then Adjusted s else Unadjusted)"

text \<open>
  The part of \<open>generate_dashboard\<close> that reconciles the series with the live quote and
  chooses the headline; the markup of the page, written after it, is not modelled.
\<close>

definition generate_dashboard ::
  "rat observation list \<Rightarrow> stats \<Rightarrow> live_quote option \<Rightarrow> exn + dashboard" where
  "generate_dashboard dps st live_data =
     (if has_live live_data then
        (let q = the live_data; live_yield = the (quote_yield q)
         in case cnbc_date q st of Inl e \<Rightarrow> Inl e
            | Inr dt \<Rightarrow>
                let matched_boe = (case find_nearest_value dps dt of
                                     None \<Rightarrow> current_yield st | Some v \<Rightarrow> v);
                    s = round4 (live_yield - matched_boe)
                in if SPREAD_MIN \<le> s \<and> s \<le> SPREAD_MAX
                   then Inr \<lparr>dates_json = map date dps,
                             yields_json = map (\<lambda>d. round4 (yield d + s)) dps,
                             spread = s, spread_ok = True,
                             headline_yield = live_yield, headline_live = True,
                             chart_subtitle = subtitle_of True s, warning = None\<rparr>
                   else Inr \<lparr>dates_json = map date dps,
                             yields_json = map yield dps,
                             spread = 0, spread_ok = False,
                             headline_yield = live_yield, headline_live = True,
                             chart_subtitle = subtitle_of False 0, warning = Some s\<rparr>)
      else Inr \<lparr>dates_json = map date dps,
                yields_json = map yield dps,
                spread = 0, spread_ok = False,
                headline_yield = current_yield st, headline_live = False,
                chart_subtitle = subtitle_of False 0, warning = None\<rparr>)"

section \<open>The empty feed, in \<open>fetch_and_generate\<close>\<close>

text \<open>
  \<open>fetch_and_generate\<close> from the text of the response to its test of the series: an empty
  series is a \<open>RuntimeError\<close>, and a series that is not empty goes on to the statistics.
\<close>

definition fetch_and_generate :: "string \<Rightarrow> exn + pyfloat observation list" where
  "fetch_and_generate csv_text =
     (case parse_boe_csv csv_text of
        Inl e \<Rightarrow> Inl e
      | Inr dps \<Rightarrow> if dps = [] then Inl RuntimeError else Inr dps)"

text \<open>
  A series of the parser whose values are all finite, as the series of rationals on which
  the statistics are modelled.
\<close>

fun finite_series :: "pyfloat observation list \<Rightarrow> rat observation list option" where
  "finite_series [] = Some []"
| "finite_series (x # xs) =
     (case yield x of
        Finite v \<Rightarrow> map_option (\<lambda>ys. \<lparr>date = date x, yield = v\<rparr> # ys) (finite_series xs)
      | _ \<Rightarrow> None)"

section \<open>Smoothing of the yield series: \<open>computeSMA\<close>\<close>

text \<open>
  An entry of a smoothed sequence is \<open>null\<close>, a number, or \<open>NaN\<close>. Reading an array
  outside its bounds gives \<open>undefined\<close>, and a sum that meets it is \<open>NaN\<close>: the running
  sum is a \<open>rat option\<close> with \<open>None\<close> for \<open>NaN\<close>.
\<close>

datatype sma_entry = Null | Num rat | NaN

definition js_index :: "rat list \<Rightarrow> int \<Rightarrow> rat option" where
  "js_index data j = (if 0 \<le> j \<and> j < int (length data) then Some (data ! nat j) else None)"

definition js_add :: "rat option \<Rightarrow> rat option \<Rightarrow> rat option" where
  "js_add s v = (case s of None \<Rightarrow> None
                 | Some a \<Rightarrow> (case v of None \<Rightarrow> None | Some b \<Rightarrow> Some (a + b)))"

text \<open>The inner loop \<open>for (j = lo; j <= hi; j++) sum += data[j]\<close>, from \<open>sum = 0\<close>.\<close>

definition window_sum :: "rat list \<Rightarrow> int \<Rightarrow> int \<Rightarrow> rat option" where
  "window_sum data lo hi = fold (\<lambda>j s. js_add s (js_index data j)) [lo..hi] (Some 0)"

text \<open>
  \<open>sum / window\<close>. The window is zero only when the inner loop is empty, the sum is then
  \<open>0\<close> and \<open>0 / 0\<close> is \<open>NaN\<close>.
\<close>

definition sma_div :: "rat option \<Rightarrow> int \<Rightarrow> sma_entry" where
  "sma_div s w = (case s of None \<Rightarrow> NaN
                  | Some a \<Rightarrow> if w = 0 then NaN else Num (a / of_int w))"

definition computeSMA :: "rat list \<Rightarrow> int \<Rightarrow> sma_entry list" where
  "computeSMA data window =
     map (\<lambda>i. if int i < window - 1 then Null
               else sma_div (window_sum data (int i - window + 1) (int i)) window)
         [0..<length data]"

section \<open>The valuation calculator: \<open>recalculate\<close> and \<open>updateValueChart\<close>\<close>

text \<open>
  The text of an input field is read by \<open>parseNumber\<close>, which gives a number or \<open>NaN\<close>:
  a field is a \<open>rat option\<close>, \<open>None\<close> for \<open>NaN\<close>. \<open>!x\<close> holds of \<open>0\<close> and of \<open>NaN\<close>, and
  \<open>x <= 0\<close> is false of \<open>NaN\<close>.
\<close>

definition js_not :: "rat option \<Rightarrow> bool" where
  "js_not x = (case x of None \<Rightarrow> True | Some v \<Rightarrow> v = 0)"

definition js_le0 :: "rat option \<Rightarrow> bool" where
  "js_le0 x = (case x of None \<Rightarrow> False | Some v \<Rightarrow> v \<le> 0)"

subsection \<open>The chart of projected values\<close>

text \<open>
  \<open>updateValueChart\<close> reads the globals \<open>yields\<close> (the series shown by the yield chart)
  and \<open>CURRENT_GILT\<close> (the headline yield). It hides the chart (\<open>None\<close>) on a rent or a
  yield that is zero or negative, and otherwise computes the projected values and their
  30-point average; \<open>null\<close> entries are \<open>None\<close>.
\<close>

definition implied_value :: "rat \<Rightarrow> rat \<Rightarrow> rat \<Rightarrow> rat \<Rightarrow> rat \<Rightarrow> rat option" where
  "implied_value current_gilt rent propYield passThrough y =
     (let giltDelta = y - current_gilt;
          adjustedYield = propYield + giltDelta * passThrough
      in if adjustedYield \<le> 0 then None else Some (rent / (adjustedYield / 100)))"

text \<open>
  The inner loop over \<open>j = i - 29, ..., i\<close>, run only for \<open>i \<ge> 29\<close>: the pair is
  \<open>(sum, count)\<close>.
\<close>

definition window_stats :: "rat option list \<Rightarrow> nat \<Rightarrow> rat \<times> nat" where
  "window_stats impliedValues i =
     fold (\<lambda>j (s, c). case impliedValues ! j of None \<Rightarrow> (s, c) | Some v \<Rightarrow> (s + v, c + 1))
          [i - 29..<Suc i] (0, 0)"

definition value_sma30 :: "rat option list \<Rightarrow> rat option list" where
  "value_sma30 impliedValues =
     map (\<lambda>i. if i < 29 then None
               else (case window_stats impliedValues i of
                       (s, c) \<Rightarrow> if 0 < c then Some (s / of_nat c) else None))
         [0..<length impliedValues]"

record value_chart =
  impliedValues :: "rat option list"
  valueSMA30 :: "rat option list"

definition updateValueChart ::
  "rat list \<Rightarrow> rat \<Rightarrow> rat \<Rightarrow> rat \<Rightarrow> rat \<Rightarrow> value_chart option" where
  "updateValueChart yields current_gilt rent propYield passThrough =
     (if rent = 0 \<or> propYield = 0 \<or> rent \<le> 0 \<or> propYield \<le> 0 then None
      else let vs = map (implied_value current_gilt rent propYield passThrough) yields
           in Some \<lparr>impliedValues = vs, valueSMA30 = value_sma30 vs\<rparr>)"

subsection \<open>The scenario table\<close>

datatype input_mode = YieldMode | PriceMode

text \<open>
  The last cell of a row: a dash on the row of the current yield, and otherwise the
  change of value and its percentage, in the positive or in the negative style.
\<close>

datatype change_cell = Dash | ValPositive rat rat | ValNegative rat rat

record scenario_row =
  deltaBps :: int
  newPropYield :: rat
  newValue :: rat
  change :: rat
  changePct :: rat
  changeCell :: change_cell

definition scenarios :: "int list" where
  "scenarios = [-75, -50, -25, 0, 25, 50, 75]"

text \<open>One pass of the \<open>forEach\<close>; \<open>None\<close> is the early \<open>return\<close> that adds no row.\<close>

definition scenario_row_of :: "rat \<Rightarrow> rat \<Rightarrow> rat \<Rightarrow> rat \<Rightarrow> int \<Rightarrow> scenario_row option" where
  "scenario_row_of rent propYield baseValue passThrough d =
     (let effectiveShift = of_int d * passThrough;
          newY = propYield + effectiveShift / 100
      in if newY \<le> 0 then None
         else let newV = rent / (newY / 100);
                  chg = newV - baseValue;
                  pct = (chg / baseValue) * 100;
                  isCurrent = (d = 0)
              in Some \<lparr>deltaBps = d, newPropYield = newY, newValue = newV, change = chg,
                        changePct = pct,
                        changeCell = (if isCurrent then Dash
                                      else if 0 < chg then ValPositive chg pct
                                      else ValNegative chg pct)\<rparr>)"

record calc_view =
  derived :: "rat option"
  propYield :: rat
  baseValue :: rat
  table :: "scenario_row list"
  chart :: "value_chart option"

text \<open>
  \<open>recalculate\<close>, from the parsed fields, the mode and the pass-through of the slider
  (its percentage divided by 100). \<open>None\<close> is the placeholder shown in place of a result.
\<close>

definition recalculate ::
  "rat list \<Rightarrow> rat \<Rightarrow> input_mode \<Rightarrow> rat option \<Rightarrow> rat option \<Rightarrow> rat option \<Rightarrow> rat
   \<Rightarrow> calc_view option" where
  "recalculate yields current_gilt inputMode rentIn yieldIn priceIn passThrough =
     (let py = (case inputMode of
                  PriceMode \<Rightarrow>
                    if js_not rentIn \<or> js_not priceIn \<or> js_le0 rentIn \<or> js_le0 priceIn then None
                    else Some (Some ((the rentIn / the priceIn) * 100), Some ((the rentIn / the priceIn) * 100))
                | YieldMode \<Rightarrow> Some (yieldIn, None))
      in case py of None \<Rightarrow> None
         | Some (propY, drv) \<Rightarrow>
             if js_not rentIn \<or> js_not propY \<or> js_le0 rentIn \<or> js_le0 propY then None
             else let rent = the rentIn; y = the propY;
                      base = rent / (y / 100)
                  in Some \<lparr>derived = drv, propYield = y, baseValue = base,
                            table = List.map_filter (scenario_row_of rent y base passThrough) scenarios,
                            chart = updateValueChart yields current_gilt rent y passThrough\<rparr>)"

text \<open>The values of a sequence that are not absent, in order.\<close>

fun present :: "'a option list \<Rightarrow> 'a list" where
  "present [] = []"
| "present (None # xs) = present xs"
| "present (Some v # xs) = v # present xs"

text \<open>
  Two formulas of \<open>recalculate\<close>, named for the statements about it: the base value
  \<open>rent / (propYield / 100)\<close> and the yield of a scenario,
  \<open>propYield + deltaBps * passThrough / 100\<close>.
\<close>

definition base_value :: "rat \<Rightarrow> rat \<Rightarrow> rat" where
  "base_value R Y = R / (Y / 100)"

definition new_yield :: "rat \<Rightarrow> rat \<Rightarrow> int \<Rightarrow> rat" where
  "new_yield Y T d = Y + (of_int d * T) / 100"

section \<open>Evaluating the floor of a rational numeral\<close>

lemma floor_rat_numeral [simp]:
  "\<lfloor>(numeral a :: rat) / numeral b\<rfloor> = numeral a div numeral b"
  using floor_divide_of_int_eq [of "numeral a" "numeral b", where ?'a = rat] by simp

lemma floor_rat_neg_numeral [simp]:
  "\<lfloor>- ((numeral a :: rat) / numeral b)\<rfloor> = - numeral a div numeral b"
  using floor_divide_of_int_eq [of "- numeral a" "numeral b", where ?'a = rat] by simp

lemma floor_rat_one_divide [simp]:
  "\<lfloor>(1 :: rat) / numeral b\<rfloor> = 1 div numeral b"
  using floor_divide_of_int_eq [of 1 "numeral b", where ?'a = rat] by simp

lemma floor_rat_neg_one_divide [simp]:
  "\<lfloor>- ((1 :: rat) / numeral b)\<rfloor> = - 1 div numeral b"
  using floor_divide_of_int_eq [of "- 1" "numeral b", where ?'a = rat] by simp

section \<open>Properties of the smoothing\<close>

lemma fold_js_add_window:
  "0 \<le> lo \<Longrightarrow> hi < int (length data) \<Longrightarrow>
   fold (\<lambda>j s. js_add s (js_index data j)) [lo..hi] (Some a) =
   Some (a + sum_list (map (\<lambda>j. data ! nat j) [lo..hi]))"
proof (induction lo hi arbitrary: a rule: upto.induct)
  case (1 i j)
  show ?case
  proof (cases "i \<le> j")
    case True
    then have unf: "[i..j] = i # [i + 1..j]"
      by (simp add: upto_rec1)
    have idx: "js_index data i = Some (data ! nat i)"
      using True "1.prems" by (simp add: js_index_def)
    have "fold (\<lambda>j s. js_add s (js_index data j)) [i + 1..j] (Some (a + data ! nat i)) =
          Some (a + data ! nat i + sum_list (map (\<lambda>j. data ! nat j) [i + 1..j]))"
      using "1.IH" [OF True, of "a + data ! nat i"] "1.prems" by simp
    then show ?thesis
      by (simp add: unf idx js_add_def add.assoc)
  next
    case False
    then show ?thesis by simp
  qed
qed

lemma window_sum_in_range:
  "0 \<le> lo \<Longrightarrow> hi < int (length data) \<Longrightarrow>
   window_sum data lo hi = Some (sum_list (map (\<lambda>j. data ! nat j) [lo..hi]))"
  by (simp add: window_sum_def fold_js_add_window)

text \<open>
  C7. For every numeric sequence and every window \<open>W \<ge> 1\<close>, the smoothed sequence is as
  long as the input, its entry \<open>i\<close> is absent for \<open>i < W - 1\<close>, and for \<open>i \<ge> W - 1\<close> it
  is the sum of the \<open>W\<close> input values at the positions \<open>i - W + 1\<close> to \<open>i\<close>, divided by
  \<open>W\<close>.
\<close>

theorem computeSMA_trailing_mean:
  assumes "1 \<le> w"
  shows "length (computeSMA data w) = length data
       \<and> (\<forall>i < length data. int i < w - 1 \<longrightarrow> computeSMA data w ! i = Null)
       \<and> (\<forall>i < length data. w - 1 \<le> int i \<longrightarrow>
             length [int i - w + 1..int i] = nat w
           \<and> (\<forall>j \<in> set [int i - w + 1..int i]. 0 \<le> j \<and> j \<le> int i)
           \<and> computeSMA data w ! i =
               Num (sum_list (map (\<lambda>j. data ! nat j) [int i - w + 1..int i]) / of_int w))"
proof (intro conjI allI impI)
  show "length (computeSMA data w) = length data"
    by (simp add: computeSMA_def)
next
  fix i assume "i < length data" "int i < w - 1"
  then show "computeSMA data w ! i = Null"
    by (simp add: computeSMA_def)
next
  fix i assume "i < length data" "w - 1 \<le> int i"
  show "length [int i - w + 1..int i] = nat w"
    using assms by simp
next
  fix i assume "i < length data" "w - 1 \<le> int i"
  then show "\<forall>j \<in> set [int i - w + 1..int i]. 0 \<le> j \<and> j \<le> int i"
    by auto
next
  fix i assume i: "i < length data" and w: "w - 1 \<le> int i"
  have "window_sum data (int i - w + 1) (int i) =
        Some (sum_list (map (\<lambda>j. data ! nat j) [int i - w + 1..int i]))"
    using i w by (intro window_sum_in_range) auto
  then show "computeSMA data w ! i =
             Num (sum_list (map (\<lambda>j. data ! nat j) [int i - w + 1..int i]) / of_int w)"
    using i w assms by (simp add: computeSMA_def sma_div_def)
qed

theorem computeSMA_trailing_mean_witness:
  "(1::int) \<le> 2
   \<and> computeSMA [1, 2, 4] 2 = [Null, Num (3 / 2), Num 3]"
proof -
  have h: "(1::int) \<le> 2" by simp
  have "length (computeSMA [1, 2, 4] 2) = length [1, 2, 4 :: rat]"
    using computeSMA_trailing_mean [OF h, of "[1, 2, 4]"] by blast
  moreover have "computeSMA [1, 2, 4] 2 = [Null, Num (3 / 2), Num 3]"
    by (simp add: computeSMA_def sma_div_def window_sum_def js_add_def js_index_def
        upto_rec1 upt_rec)
  ultimately show ?thesis by simp
qed

section \<open>Properties of the valuation calculator\<close>

lemma present_snoc:
  "present (xs @ [x]) = present xs @ (case x of None \<Rightarrow> [] | Some v \<Rightarrow> [v])"
  by (induction xs rule: present.induct) (auto split: option.splits)

lemma fold_window_stats:
  "fold (\<lambda>j (s, c). case vs ! j of None \<Rightarrow> (s, c) | Some v \<Rightarrow> (s + v, c + 1)) [a..<b] (s0 :: rat, c0 :: nat) =
   (s0 + sum_list (present (map (\<lambda>j. vs ! j) [a..<b])),
    c0 + length (present (map (\<lambda>j. vs ! j) [a..<b])))"
proof (induction b)
  case 0
  show ?case by simp
next
  case (Suc b)
  show ?case
  proof (cases "a \<le> b")
    case True
    then show ?thesis using Suc
      by (simp add: present_snoc split: option.splits)
  next
    case False
    then show ?thesis by simp
  qed
qed

lemma window_stats_eq:
  "window_stats vs i =
   (sum_list (present (map (\<lambda>j. vs ! j) [i - 29..<Suc i])),
    length (present (map (\<lambda>j. vs ! j) [i - 29..<Suc i])))"
  unfolding window_stats_def by (simp only: fold_window_stats) simp

lemma value_sma30_nth:
  assumes "i < length vs"
  shows "value_sma30 vs ! i =
     (if i < 29 then None
      else let w = present (map (\<lambda>j. vs ! j) [i - 29..<Suc i])
           in if w = [] then None else Some (sum_list w / of_nat (length w)))"
  using assms by (simp add: value_sma30_def window_stats_eq Let_def)

text \<open>
  C6. For a rent and a yield above zero the chart is computed. The projected value at
  position \<open>i\<close> is absent when \<open>Y + (y\<^sub>i - current) * T \<le> 0\<close> and is \<open>R\<close> divided by a hundredth
  of that adjusted yield otherwise. The smoothed value at \<open>i \<ge> 29\<close> is the mean of the
  values that are not absent among the 30 positions \<open>i - 29, ..., i\<close>, absent when there is
  none, and it is absent for \<open>i < 29\<close>.
\<close>

theorem updateValueChart_projection:
  assumes "0 < R" "0 < Y"
  shows "\<exists>c. updateValueChart ys g R Y T = Some c
    \<and> length (impliedValues c) = length ys
    \<and> length (valueSMA30 c) = length ys
    \<and> (\<forall>i < length ys. impliedValues c ! i =
          (if Y + (ys ! i - g) * T \<le> 0 then None
           else Some (R / ((Y + (ys ! i - g) * T) / 100))))
    \<and> (\<forall>i < length ys. i < 29 \<longrightarrow> valueSMA30 c ! i = None)
    \<and> (\<forall>i < length ys. 29 \<le> i \<longrightarrow>
          length [i - 29..<Suc i] = 30
        \<and> valueSMA30 c ! i =
            (let w = present (map (\<lambda>j. impliedValues c ! j) [i - 29..<Suc i])
             in if w = [] then None else Some (sum_list w / of_nat (length w))))"
proof -
  define vs where "vs = map (implied_value g R Y T) ys"
  define c where "c = \<lparr>impliedValues = vs, valueSMA30 = value_sma30 vs\<rparr>"
  have upd: "updateValueChart ys g R Y T = Some c"
    using assms by (simp add: updateValueChart_def c_def vs_def Let_def)
  have len: "length vs = length ys" by (simp add: vs_def)
  have l1: "length (impliedValues c) = length ys" by (simp add: c_def len)
  have l2: "length (valueSMA30 c) = length ys" by (simp add: c_def value_sma30_def len)
  have iv: "\<forall>i < length ys. impliedValues c ! i =
          (if Y + (ys ! i - g) * T \<le> 0 then None
           else Some (R / ((Y + (ys ! i - g) * T) / 100)))"
    by (simp add: c_def vs_def implied_value_def Let_def)
  have early: "\<forall>i < length ys. i < 29 \<longrightarrow> valueSMA30 c ! i = None"
    by (simp add: c_def value_sma30_nth len)
  have late: "\<forall>i < length ys. 29 \<le> i \<longrightarrow>
          length [i - 29..<Suc i] = 30
        \<and> valueSMA30 c ! i =
            (let w = present (map (\<lambda>j. impliedValues c ! j) [i - 29..<Suc i])
             in if w = [] then None else Some (sum_list w / of_nat (length w)))"
    by (simp add: c_def value_sma30_nth len)
  from upd l1 l2 iv early late show ?thesis by blast
qed

lemma scenario_row_of_None:
  "scenario_row_of R Y V T d = None \<longleftrightarrow> new_yield Y T d \<le> 0"
  by (simp add: scenario_row_of_def new_yield_def Let_def)

lemma scenario_row_of_Some:
  "scenario_row_of R Y V T d = Some r \<Longrightarrow>
   deltaBps r = d \<and> newPropYield r = new_yield Y T d
   \<and> newValue r = R / (new_yield Y T d / 100)
   \<and> change r = newValue r - V
   \<and> changePct r = 100 * change r / V
   \<and> (changeCell r = Dash \<longleftrightarrow> d = 0)"
  by (auto simp add: scenario_row_of_def new_yield_def Let_def split: if_splits)

lemma map_filter_keys:
  assumes "\<And>d r. f d = Some r \<Longrightarrow> k r = d"
  shows "map k (List.map_filter f xs) = filter (\<lambda>d. f d \<noteq> None) xs"
  using assms by (induction xs) (auto simp add: map_filter_simps split: option.splits)

lemma set_map_filter: "set (List.map_filter f xs) = {r. \<exists>d \<in> set xs. f d = Some r}"
  by (induction xs) (auto simp add: map_filter_simps split: option.splits)

text \<open>
  C5. For a rent \<open>R > 0\<close>, a yield \<open>Y > 0\<close> and a pass-through \<open>T\<close> in \<open>[0, 1]\<close>, the table has
  a row for a delta of the fixed set exactly when the new yield \<open>Y + delta * T / 100\<close> is
  above zero, in the order of the set; a row carries the new value \<open>R / (new_yield / 100)\<close>,
  its difference to the base value \<open>V = R / (Y / 100)\<close> and that difference as a percentage
  of \<open>V\<close>; the row of the zero delta is always there and shows a dash for the change.
\<close>

theorem recalculate_scenarios:
  assumes "0 < R" "0 < Y" "0 \<le> T" "T \<le> 1"
  shows "\<exists>v. recalculate ys g YieldMode (Some R) (Some Y) pin T = Some v
     \<and> baseValue v = base_value R Y
     \<and> map deltaBps (table v) = filter (\<lambda>d. \<not> new_yield Y T d \<le> 0) scenarios
     \<and> (\<forall>d \<in> set scenarios. (\<exists>r \<in> set (table v). deltaBps r = d) \<longleftrightarrow> \<not> new_yield Y T d \<le> 0)
     \<and> (\<forall>r \<in> set (table v).
           deltaBps r \<in> set scenarios
         \<and> newPropYield r = new_yield Y T (deltaBps r)
         \<and> newValue r = R / (new_yield Y T (deltaBps r) / 100)
         \<and> change r = newValue r - base_value R Y
         \<and> changePct r = 100 * change r / base_value R Y
         \<and> (changeCell r = Dash \<longleftrightarrow> deltaBps r = 0))
     \<and> (\<exists>r \<in> set (table v). deltaBps r = 0 \<and> changeCell r = Dash)"
proof -
  define V where "V = base_value R Y"
  define f where "f = scenario_row_of R Y V T"
  define v where "v = \<lparr>derived = None, propYield = Y, baseValue = V,
      table = List.map_filter f scenarios, chart = updateValueChart ys g R Y T\<rparr>"
  have rc: "recalculate ys g YieldMode (Some R) (Some Y) pin T = Some v"
    using assms(1,2)
    by (simp add: recalculate_def js_not_def js_le0_def v_def f_def V_def base_value_def Let_def)
  have bv: "baseValue v = base_value R Y" by (simp add: v_def V_def)
  have tb: "table v = List.map_filter f scenarios" by (simp add: v_def)
  have keys: "map deltaBps (table v) = filter (\<lambda>d. \<not> new_yield Y T d \<le> 0) scenarios"
  proof -
    have "map deltaBps (List.map_filter f scenarios) = filter (\<lambda>d. f d \<noteq> None) scenarios"
      by (rule map_filter_keys) (simp add: f_def scenario_row_of_Some)
    then show ?thesis by (simp add: tb f_def scenario_row_of_None)
  qed
  have rows: "\<forall>r \<in> set (table v).
           deltaBps r \<in> set scenarios
         \<and> newPropYield r = new_yield Y T (deltaBps r)
         \<and> newValue r = R / (new_yield Y T (deltaBps r) / 100)
         \<and> change r = newValue r - base_value R Y
         \<and> changePct r = 100 * change r / base_value R Y
         \<and> (changeCell r = Dash \<longleftrightarrow> deltaBps r = 0)"
  proof
    fix r assume "r \<in> set (table v)"
    then obtain d where d: "d \<in> set scenarios" "f d = Some r"
      by (auto simp add: tb set_map_filter)
    from scenario_row_of_Some [OF d(2) [unfolded f_def]] d(1)
    show "deltaBps r \<in> set scenarios
         \<and> newPropYield r = new_yield Y T (deltaBps r)
         \<and> newValue r = R / (new_yield Y T (deltaBps r) / 100)
         \<and> change r = newValue r - base_value R Y
         \<and> changePct r = 100 * change r / base_value R Y
         \<and> (changeCell r = Dash \<longleftrightarrow> deltaBps r = 0)"
      by (simp add: V_def)
  qed
  have pres: "\<forall>d \<in> set scenarios. (\<exists>r \<in> set (table v). deltaBps r = d) \<longleftrightarrow> \<not> new_yield Y T d \<le> 0"
  proof
    fix d assume "d \<in> set scenarios"
    have "(\<exists>r \<in> set (table v). deltaBps r = d) \<longleftrightarrow> d \<in> set (map deltaBps (table v))"
      by auto
    also have "\<dots> \<longleftrightarrow> \<not> new_yield Y T d \<le> 0"
      using \<open>d \<in> set scenarios\<close> by (simp only: keys) simp
    finally show "(\<exists>r \<in> set (table v). deltaBps r = d) \<longleftrightarrow> \<not> new_yield Y T d \<le> 0" .
  qed
  have zero: "\<exists>r \<in> set (table v). deltaBps r = 0 \<and> changeCell r = Dash"
  proof -
    have "\<not> new_yield Y T 0 \<le> 0" using assms(2) by (simp add: new_yield_def)
    moreover have "0 \<in> set scenarios" by (simp add: scenarios_def)
    ultimately obtain r where r: "r \<in> set (table v)" "deltaBps r = 0"
      using pres by blast
    with rows show ?thesis by blast
  qed
  from rc bv keys pres rows zero show ?thesis by blast
qed

lemma recalculate_yield_mode:
  assumes "0 < R" "0 < Y"
  shows "recalculate ys g YieldMode (Some R) (Some Y) pin T =
     Some \<lparr>derived = None, propYield = Y, baseValue = base_value R Y,
           table = List.map_filter (scenario_row_of R Y (base_value R Y) T) scenarios,
           chart = updateValueChart ys g R Y T\<rparr>"
  using assms
  by (simp add: recalculate_def js_not_def js_le0_def base_value_def Let_def)

lemma recalculate_price_as_yield:
  assumes "0 < R" "0 < P"
  shows "recalculate ys g PriceMode (Some R) yin (Some P) T =
     map_option (\<lambda>v. v\<lparr>derived := Some (R / P * 100)\<rparr>)
       (recalculate ys g YieldMode (Some R) (Some (R / P * 100)) pin T)"
  using assms
  by (simp add: recalculate_def js_not_def js_le0_def Let_def)

text \<open>
  C8. In price mode, with a rent \<open>R > 0\<close> and a guide price \<open>P > 0\<close>, the yield is
  \<open>100 * R / P\<close>, the base value is \<open>R / (Y / 100)\<close> for that yield, and the whole result
  is the one of yield mode at that yield, the line of the derived yield apart. For
  \<open>R = 250000\<close> and \<open>P = 4500000\<close> the yield is \<open>5.5556\<close> when rounded to four digits.
\<close>

theorem recalculate_price_mode:
  assumes "0 < R" "0 < P"
  shows "\<exists>v. recalculate ys g PriceMode (Some R) yin (Some P) T = Some v
     \<and> propYield v = 100 * R / P
     \<and> derived v = Some (100 * R / P)
     \<and> baseValue v = base_value R (propYield v)
     \<and> recalculate ys g YieldMode (Some R) (Some (100 * R / P)) pin T = Some (v\<lparr>derived := None\<rparr>)
     \<and> (R = 250000 \<and> P = 4500000 \<longrightarrow> round4 (propYield v) = 55556 / 10000)"
proof -
  define y where "y = 100 * R / P"
  have ypos: "0 < y" using assms by (simp add: y_def)
  have yeq: "R / P * 100 = y" by (simp add: y_def)
  define w where "w = \<lparr>derived = None, propYield = y, baseValue = base_value R y,
           table = List.map_filter (scenario_row_of R y (base_value R y) T) scenarios,
           chart = updateValueChart ys g R y T\<rparr>"
  have ry: "recalculate ys g YieldMode (Some R) (Some y) pin T = Some w"
    unfolding w_def by (rule recalculate_yield_mode [OF assms(1) ypos])
  have rc: "recalculate ys g PriceMode (Some R) yin (Some P) T = Some (w\<lparr>derived := Some y\<rparr>)"
    unfolding recalculate_price_as_yield [OF assms, of ys g yin T pin] yeq ry by simp
  have ex: "R = 250000 \<and> P = 4500000 \<longrightarrow> round4 y = 55556 / 10000"
    by (simp add: y_def round4_def round_half_even_def Let_def)
  show ?thesis
    unfolding y_def [symmetric]
    apply (rule exI [of _ "w\<lparr>derived := Some y\<rparr>"])
    using rc ry ex by (simp add: w_def)
qed

theorem recalculate_price_mode_witness:
  "(0::rat) < 250000 \<and> (0::rat) < 4500000
   \<and> (\<exists>v. recalculate [] 0 PriceMode (Some 250000) None (Some 4500000) (1 / 2) = Some v
          \<and> propYield v = 50 / 9 \<and> baseValue v = 4500000 \<and> round4 (propYield v) = 55556 / 10000)"
proof -
  have h1: "(0::rat) < 250000" and h2: "(0::rat) < 4500000" by simp_all
  from recalculate_price_mode [OF h1 h2, of "[]" 0 None "1 / 2" None]
  obtain v where v: "recalculate [] 0 PriceMode (Some 250000) None (Some 4500000) (1 / 2) = Some v"
      "propYield v = 100 * 250000 / 4500000"
      "baseValue v = base_value 250000 (propYield v)"
      "round4 (propYield v) = 55556 / 10000"
    by blast
  have p: "propYield v = 50 / 9" unfolding v(2) by simp
  have b: "baseValue v = 4500000" unfolding v(3) p by (simp add: base_value_def)
  from v(1) p b v(4) h1 h2 show ?thesis by blast
qed

theorem recalculate_scenarios_witness:
  "(0::rat) < 250000 \<and> (0::rat) < 11 / 2 \<and> (0::rat) \<le> 1 / 2 \<and> (1 / 2 :: rat) \<le> 1
   \<and> (\<exists>v. recalculate [] 0 YieldMode (Some 250000) (Some (11 / 2)) None (1 / 2) = Some v
          \<and> baseValue v = 50000000 / 11
          \<and> map deltaBps (table v) = [-75, -50, -25, 0, 25, 50, 75]
          \<and> (\<forall>r \<in> set (table v). deltaBps r = 50 \<longrightarrow>
                 newPropYield r = 23 / 4 \<and> newValue r = 100000000 / 23))"
proof -
  have h: "(0::rat) < 250000" "(0::rat) < 11 / 2" "(0::rat) \<le> 1 / 2" "(1 / 2 :: rat) \<le> 1" by simp_all
  from recalculate_scenarios [OF h, of "[]" 0 None]
  show ?thesis
    apply (simp add: base_value_def new_yield_def scenarios_def)
    apply (elim exE conjE)
    subgoal for v
      apply (rule exI [of _ v])
      apply auto
      done
    done
qed

theorem updateValueChart_projection_witness:
  "(0::rat) < 100 \<and> (0::rat) < 5
   \<and> (\<exists>c. updateValueChart [4, -6] 4 100 5 1 = Some c
          \<and> impliedValues c = [Some 2000, None])"
proof -
  have h: "(0::rat) < 100" "(0::rat) < 5" by simp_all
  from updateValueChart_projection [OF h, of "[4, -6]" 4 1]
  obtain c where c: "updateValueChart [4, -6] 4 100 5 1 = Some c"
      "length (impliedValues c) = length [4, -6 :: rat]"
      "\<forall>i < length [4, -6 :: rat]. impliedValues c ! i =
          (if 5 + ([4, -6] ! i - 4) * 1 \<le> (0::rat) then None
           else Some (100 / ((5 + ([4, -6] ! i - 4) * 1) / 100)))"
    by blast
  from c(3) have "impliedValues c ! 0 = Some 2000" "impliedValues c ! 1 = None"
    by simp_all
  with c(2) have "impliedValues c = [Some 2000, None]"
    by (cases "impliedValues c"; cases "tl (impliedValues c)") auto
  with c(1) h show ?thesis by blast
qed

section \<open>Properties of the lookup, the statistics and the reconciliation\<close>

lemma nearest_fold_first_minimum:
  assumes "xs \<noteq> []"
  shows "\<exists>i < length xs.
           fold (nearest_step t) xs (None, None) = (Some (yield (xs ! i)), Some (day_diff t (xs ! i)))
         \<and> (\<forall>j < length xs. day_diff t (xs ! i) \<le> day_diff t (xs ! j))
         \<and> (\<forall>j < i. day_diff t (xs ! i) < day_diff t (xs ! j))"
  using assms
proof (induction xs rule: rev_nonempty_induct)
  case (single x)
  show ?case by (simp add: nearest_step_def)
next
  case (snoc x xs)
  then obtain i where i: "i < length xs"
      and f: "fold (nearest_step t) xs (None, None) = (Some (yield (xs ! i)), Some (day_diff t (xs ! i)))"
      and le: "\<forall>j < length xs. day_diff t (xs ! i) \<le> day_diff t (xs ! j)"
      and lt: "\<forall>j < i. day_diff t (xs ! i) < day_diff t (xs ! j)"
    by blast
  show ?case
  proof (cases "day_diff t x < day_diff t (xs ! i)")
    case True
    have "fold (nearest_step t) (xs @ [x]) (None, None) =
          (Some (yield ((xs @ [x]) ! length xs)), Some (day_diff t ((xs @ [x]) ! length xs)))"
      using True by (simp add: f nearest_step_def)
    moreover have "\<forall>j < length (xs @ [x]). day_diff t ((xs @ [x]) ! length xs) \<le> day_diff t ((xs @ [x]) ! j)"
    proof (intro allI impI)
      fix j assume "j < length (xs @ [x])"
      then consider "j < length xs" | "j = length xs" by fastforce
      then show "day_diff t ((xs @ [x]) ! length xs) \<le> day_diff t ((xs @ [x]) ! j)"
      proof cases
        case 1
        with le True show ?thesis by (simp add: nth_append) (meson le less_le_trans less_imp_le order_trans)
      next
        case 2
        then show ?thesis by simp
      qed
    qed
    moreover have "\<forall>j < length xs. day_diff t ((xs @ [x]) ! length xs) < day_diff t ((xs @ [x]) ! j)"
    proof (intro allI impI)
      fix j assume j: "j < length xs"
      with le have "day_diff t (xs ! i) \<le> day_diff t (xs ! j)" by blast
      with True j show "day_diff t ((xs @ [x]) ! length xs) < day_diff t ((xs @ [x]) ! j)"
        by (simp add: nth_append)
    qed
    ultimately show ?thesis
      by (intro exI [of _ "length xs"]) simp
  next
    case False
    have "fold (nearest_step t) (xs @ [x]) (None, None) =
          (Some (yield ((xs @ [x]) ! i)), Some (day_diff t ((xs @ [x]) ! i)))"
      using False i by (simp add: f nearest_step_def nth_append)
    moreover have "\<forall>j < length (xs @ [x]). day_diff t ((xs @ [x]) ! i) \<le> day_diff t ((xs @ [x]) ! j)"
    proof (intro allI impI)
      fix j assume "j < length (xs @ [x])"
      then consider "j < length xs" | "j = length xs" by fastforce
      then show "day_diff t ((xs @ [x]) ! i) \<le> day_diff t ((xs @ [x]) ! j)"
      proof cases
        case 1
        with le i show ?thesis by (simp add: nth_append)
      next
        case 2
        with False i show ?thesis by (simp add: nth_append)
      qed
    qed
    moreover have "\<forall>j < i. day_diff t ((xs @ [x]) ! i) < day_diff t ((xs @ [x]) ! j)"
      using lt i by (simp add: nth_append)
    ultimately show ?thesis
      using i by (intro exI [of _ i]) simp
  qed
qed

lemma find_nearest_value_Some:
  assumes "dps \<noteq> []"
  shows "\<exists>m. find_nearest_value dps t = Some m"
  using nearest_fold_first_minimum [OF assms, of t] by (auto simp add: find_nearest_value_def)




subsection \<open>Rounding to four digits, and calls that cannot fail\<close>

lemma round_half_even_of_int: "round_half_even (of_int k) = k"
  by (simp add: round_half_even_def)

lemma round4_grid: "round4 (of_int k / 10000) = of_int k / 10000"
  by (simp add: round4_def round_half_even_of_int)

lemma round4_fixed_iff: "round4 x = x \<longleftrightarrow> (\<exists>k. x = of_int k / 10000)"
proof
  assume "round4 x = x"
  then have "x = of_int (round_half_even (x * 10000)) / 10000" by (simp add: round4_def)
  then show "\<exists>k. x = of_int k / 10000" by blast
next
  assume "\<exists>k. x = of_int k / 10000"
  then obtain k where "x = of_int k / 10000" ..
  then show "round4 x = x" by (simp only: round4_grid)
qed

lemma round4_idem: "round4 (round4 x) = round4 x"
  unfolding round4_fixed_iff by (auto simp add: round4_def)

lemma round4_add_grid:
  assumes "round4 a = a" "round4 b = b"
  shows "round4 (a + b) = a + b"
proof -
  from assms obtain k l where "a = of_int k / 10000" "b = of_int l / 10000"
    by (auto simp add: round4_fixed_iff)
  then have "a + b = of_int (k + l) / 10000" by (simp add: add_divide_distrib)
  then show ?thesis by (simp only: round4_grid)
qed

lemma make_date_error: "make_date y m d = Inl e \<Longrightarrow> e = ValueError"
  by (simp add: make_date_def split: if_splits)

lemma strptime_error: "strptime s f = Inl e \<Longrightarrow> e = ValueError"
  by (auto simp add: strptime_def split: list.splits prod.splits if_splits dest: make_date_error)

lemma cnbc_date_total: "\<exists>dt. cnbc_date q st = Inr dt"
  by (auto simp add: cnbc_date_def split: option.splits sum.splits dest: strptime_error)

text \<open>
  C1. With a series that is not empty, whose values have four digits as the parser leaves
  them, and a live quote with a yield: the date of the quote is found, the lookup at that
  date gives a value \<open>m\<close>, and the spread is \<open>round4 (live - m)\<close>. The spread is applied
  exactly when it lies between 0.40 and 1.00, both included; then every yield of the
  chart is the value of the series plus the spread. Otherwise the yields are the values
  of the series. The dates and the length are those of the series in both cases, and the
  headline is the yield of the quote.
\<close>

theorem generate_dashboard_reconcile:
  assumes "dps \<noteq> []" "live = Some q" "quote_yield q = Some v"
    and grid: "\<forall>d \<in> set dps. round4 (yield d) = yield d"
  shows "\<exists>dt m db. cnbc_date q st = Inr dt \<and> find_nearest_value dps dt = Some m
     \<and> generate_dashboard dps st live = Inr db
     \<and> (spread_ok db \<longleftrightarrow> 40 / 100 \<le> round4 (v - m) \<and> round4 (v - m) \<le> 1)
     \<and> (40 / 100 \<le> round4 (v - m) \<and> round4 (v - m) \<le> 1 \<longrightarrow>
          yields_json db = map (\<lambda>d. yield d + round4 (v - m)) dps \<and> spread db = round4 (v - m))
     \<and> (\<not> (40 / 100 \<le> round4 (v - m) \<and> round4 (v - m) \<le> 1) \<longrightarrow>
          yields_json db = map yield dps)
     \<and> dates_json db = map date dps
     \<and> length (yields_json db) = length dps
     \<and> headline_yield db = v"
proof -
  obtain dt where dt: "cnbc_date q st = Inr dt" using cnbc_date_total by blast
  obtain m where m: "find_nearest_value dps dt = Some m"
    using find_nearest_value_Some [OF assms(1)] by blast
  define s where "s = round4 (v - m)"
  have hl: "has_live live" using assms(2,3) by (simp add: has_live_def)
  have shift: "map (\<lambda>d. round4 (yield d + s)) dps = map (\<lambda>d. yield d + s) dps"
  proof (rule map_cong [OF refl])
    fix d assume "d \<in> set dps"
    with grid have "round4 (yield d) = yield d" by blast
    moreover have "round4 s = s" by (simp add: s_def round4_idem)
    ultimately show "round4 (yield d + s) = yield d + s" by (rule round4_add_grid)
  qed
  have fold_s: "round4 (v - m) = s" by (simp add: s_def)
  show ?thesis
  proof (cases "40 / 100 \<le> s \<and> s \<le> 1")
    case True
    define db where "db = \<lparr>dates_json = map date dps, yields_json = map (\<lambda>d. yield d + s) dps,
               spread = s, spread_ok = True, headline_yield = v, headline_live = True,
               chart_subtitle = subtitle_of True s, warning = None\<rparr>"
    have gd: "generate_dashboard dps st live = Inr db"
      using True hl assms(2,3) dt m
      by (simp add: generate_dashboard_def Let_def fold_s SPREAD_MIN_def SPREAD_MAX_def shift db_def)
    show ?thesis
      apply (rule exI [of _ dt], rule exI [of _ m], rule exI [of _ db])
      unfolding fold_s using True dt m gd by (simp add: db_def)
  next
    case False
    define db where "db = \<lparr>dates_json = map date dps, yields_json = map yield dps,
               spread = 0, spread_ok = False, headline_yield = v, headline_live = True,
               chart_subtitle = subtitle_of False 0, warning = Some s\<rparr>"
    have gd: "generate_dashboard dps st live = Inr db"
      using False hl assms(2,3) dt m
      by (simp add: generate_dashboard_def Let_def fold_s SPREAD_MIN_def SPREAD_MAX_def db_def)
    show ?thesis
      apply (rule exI [of _ dt], rule exI [of _ m], rule exI [of _ db])
      unfolding fold_s using False dt m gd by (simp add: db_def)
  qed
qed


theorem generate_dashboard_reconcile_witness:
  "[\<lparr>date = \<lparr>year = 2024, month = 1, day = 3\<rparr>, yield = 45 / 10\<rparr>] \<noteq> []
   \<and> round4 (45 / 10) = 45 / 10
   \<and> generate_dashboard
        [\<lparr>date = \<lparr>year = 2024, month = 1, day = 3\<rparr>, yield = 45 / 10\<rparr>]
        \<lparr>current_yield = 45 / 10, current_date = \<lparr>year = 2024, month = 1, day = 3\<rparr>,
          previous_yield = 45 / 10, daily_change = 0, high_12m = 45 / 10, low_12m = 45 / 10,
          high_date = \<lparr>year = 2024, month = 1, day = 3\<rparr>,
          low_date = \<lparr>year = 2024, month = 1, day = 3\<rparr>,
          week_change = Some 0, month_change = Some 0, ytd_change = Some 0,
          data_points_count = 1\<rparr>
        (Some \<lparr>quote_yield = Some (51 / 10), last_time = Some ''2024-01-04T09:22:08.000+0000''\<rparr>)
      = Inr \<lparr>dates_json = [\<lparr>year = 2024, month = 1, day = 3\<rparr>], yields_json = [51 / 10],
              spread = 6 / 10, spread_ok = True, headline_yield = 51 / 10, headline_live = True,
              chart_subtitle = Adjusted (6 / 10), warning = None\<rparr>"
proof -
  define dps where "dps = [\<lparr>date = \<lparr>year = 2024, month = 1, day = 3\<rparr>, yield = 45 / 10 :: rat\<rparr>]"
  define q where "q = \<lparr>quote_yield = Some (51 / 10 :: rat),
      last_time = Some ''2024-01-04T09:22:08.000+0000''\<rparr>"
  define st where "st = \<lparr>current_yield = 45 / 10 :: rat, current_date = \<lparr>year = 2024, month = 1, day = 3\<rparr>,
          previous_yield = 45 / 10, daily_change = 0, high_12m = 45 / 10, low_12m = 45 / 10,
          high_date = \<lparr>year = 2024, month = 1, day = 3\<rparr>,
          low_date = \<lparr>year = 2024, month = 1, day = 3\<rparr>,
          week_change = Some 0, month_change = Some 0, ytd_change = Some 0,
          data_points_count = 1\<rparr>"
  have ne: "dps \<noteq> []" by (simp add: dps_def)
  have qy: "quote_yield q = Some (51 / 10)" by (simp add: q_def)
  have grid: "\<forall>d \<in> set dps. round4 (yield d) = yield d"
    by (simp add: dps_def round4_def round_half_even_def)
  have near: "find_nearest_value dps dt = Some (45 / 10)" for dt
    by (simp add: dps_def find_nearest_value_def nearest_step_def)
  have r: "round4 (51 / 10 - 45 / 10) = 6 / 10"
    by (simp add: round4_def round_half_even_def)
  from generate_dashboard_reconcile [OF ne refl qy grid, of st]
  obtain dt m db where db: "find_nearest_value dps dt = Some m"
      "generate_dashboard dps st (Some q) = Inr db"
      "spread_ok db \<longleftrightarrow> 40 / 100 \<le> round4 (51 / 10 - m) \<and> round4 (51 / 10 - m) \<le> 1"
      "40 / 100 \<le> round4 (51 / 10 - m) \<and> round4 (51 / 10 - m) \<le> 1 \<longrightarrow>
          yields_json db = map (\<lambda>d. yield d + round4 (51 / 10 - m)) dps
          \<and> spread db = round4 (51 / 10 - m)"
      "dates_json db = map date dps" "headline_yield db = 51 / 10"
    by blast
  from db(1) near have m: "m = 45 / 10" by simp
  have ok: "spread_ok db" using db(3) unfolding m r by simp
  have ys: "yields_json db = [51 / 10]" and sp: "spread db = 6 / 10"
    using db(4) unfolding m r by (simp_all add: dps_def)
  have hl: "has_live (Some q)" by (simp add: has_live_def q_def)
  have rest: "headline_live db = True \<and> chart_subtitle db = Adjusted (spread db) \<and> warning db = None"
    using db(2) ok hl
    by (auto simp add: generate_dashboard_def Let_def subtitle_of_def
        split: sum.splits if_splits)
  have "db = \<lparr>dates_json = [\<lparr>year = 2024, month = 1, day = 3\<rparr>], yields_json = [51 / 10],
              spread = 6 / 10, spread_ok = True, headline_yield = 51 / 10, headline_live = True,
              chart_subtitle = Adjusted (6 / 10), warning = None\<rparr>"
    using ok ys sp rest db(5,6) by (cases db) (simp add: dps_def)
  moreover have "round4 (45 / 10) = 45 / 10"
    by (simp add: round4_def round_half_even_def)
  ultimately show ?thesis using db(2) ne unfolding dps_def q_def st_def by simp
qed

lemma generate_dashboard_total: "\<exists>db. generate_dashboard dps st live = Inr db"
proof (cases "has_live live")
  case True
  obtain dt where "cnbc_date (the live) st = Inr dt" using cnbc_date_total by blast
  with True show ?thesis by (simp add: generate_dashboard_def Let_def)
next
  case False
  then show ?thesis by (simp add: generate_dashboard_def)
qed

text \<open>
  C10. The reconciliation always gives a result. When the spread is not applied, the
  spread of the result is \<open>0\<close>, the subtitle names no spread and the yields are those of
  the series. Without a live quote there is no warning; with one and a computed spread
  outside the band, that computed spread is in the warning and nowhere else.
\<close>

theorem generate_dashboard_spread_unapplied:
  "\<exists>db. generate_dashboard dps st live = Inr db
     \<and> (\<not> spread_ok db \<longrightarrow>
          spread db = 0 \<and> chart_subtitle db = Unadjusted \<and> yields_json db = map yield dps)
     \<and> (\<not> has_live live \<longrightarrow> \<not> spread_ok db \<and> warning db = None)
     \<and> (has_live live \<and> \<not> spread_ok db \<longrightarrow>
          (\<exists>s. warning db = Some s \<and> \<not> (40 / 100 \<le> s \<and> s \<le> 1)))
     \<and> (\<forall>q v dt. live = Some q \<and> quote_yield q = Some v \<and> cnbc_date q st = Inr dt \<longrightarrow>
          (let s = round4 (v - (case find_nearest_value dps dt of
                                  None \<Rightarrow> current_yield st | Some m \<Rightarrow> m))
           in \<not> (40 / 100 \<le> s \<and> s \<le> 1) \<longrightarrow>
                \<not> spread_ok db \<and> spread db = 0 \<and> warning db = Some s))
     \<and> (spread_ok db \<longrightarrow> warning db = None \<and> chart_subtitle db = Adjusted (spread db)
          \<and> 40 / 100 \<le> spread db \<and> spread db \<le> 1)"
proof -
  obtain db where db: "generate_dashboard dps st live = Inr db"
    using generate_dashboard_total by blast
  have a: "\<not> spread_ok db \<longrightarrow>
          spread db = 0 \<and> chart_subtitle db = Unadjusted \<and> yields_json db = map yield dps"
    using db by (auto simp add: generate_dashboard_def Let_def subtitle_of_def
        split: sum.splits if_splits)
  have b: "\<not> has_live live \<longrightarrow> \<not> spread_ok db \<and> warning db = None"
    using db by (auto simp add: generate_dashboard_def)
  have c: "has_live live \<and> \<not> spread_ok db \<longrightarrow>
          (\<exists>s. warning db = Some s \<and> \<not> (40 / 100 \<le> s \<and> s \<le> 1))"
    using db by (auto simp add: generate_dashboard_def Let_def SPREAD_MIN_def SPREAD_MAX_def
        split: sum.splits if_splits)
  have d: "\<forall>q v dt. live = Some q \<and> quote_yield q = Some v \<and> cnbc_date q st = Inr dt \<longrightarrow>
          (let s = round4 (v - (case find_nearest_value dps dt of
                                  None \<Rightarrow> current_yield st | Some m \<Rightarrow> m))
           in \<not> (40 / 100 \<le> s \<and> s \<le> 1) \<longrightarrow>
                \<not> spread_ok db \<and> spread db = 0 \<and> warning db = Some s)"
    using db by (auto simp add: generate_dashboard_def has_live_def Let_def SPREAD_MIN_def SPREAD_MAX_def
        split: sum.splits if_splits)
  have e: "spread_ok db \<longrightarrow> warning db = None \<and> chart_subtitle db = Adjusted (spread db)
          \<and> 40 / 100 \<le> spread db \<and> spread db \<le> 1"
    using db by (auto simp add: generate_dashboard_def Let_def subtitle_of_def SPREAD_MIN_def SPREAD_MAX_def
        split: sum.splits if_splits)
  from db a b c d e show ?thesis by blast
qed

theorem generate_dashboard_spread_unapplied_witness:
  "generate_dashboard
        [\<lparr>date = \<lparr>year = 2024, month = 1, day = 3\<rparr>, yield = 45 / 10\<rparr>]
        \<lparr>current_yield = 45 / 10, current_date = \<lparr>year = 2024, month = 1, day = 3\<rparr>,
          previous_yield = 45 / 10, daily_change = 0, high_12m = 45 / 10, low_12m = 45 / 10,
          high_date = \<lparr>year = 2024, month = 1, day = 3\<rparr>,
          low_date = \<lparr>year = 2024, month = 1, day = 3\<rparr>,
          week_change = Some 0, month_change = Some 0, ytd_change = Some 0,
          data_points_count = 1\<rparr>
        (Some \<lparr>quote_yield = Some (46 / 10), last_time = None\<rparr>)
      = Inr \<lparr>dates_json = [\<lparr>year = 2024, month = 1, day = 3\<rparr>], yields_json = [45 / 10],
              spread = 0, spread_ok = False, headline_yield = 46 / 10, headline_live = True,
              chart_subtitle = Unadjusted, warning = Some (1 / 10)\<rparr>"
proof -
  define dps where "dps = [\<lparr>date = \<lparr>year = 2024, month = 1, day = 3\<rparr>, yield = 45 / 10 :: rat\<rparr>]"
  define q where "q = \<lparr>quote_yield = Some (46 / 10 :: rat), last_time = None\<rparr>"
  define st where "st = \<lparr>current_yield = 45 / 10 :: rat, current_date = \<lparr>year = 2024, month = 1, day = 3\<rparr>,
          previous_yield = 45 / 10, daily_change = 0, high_12m = 45 / 10, low_12m = 45 / 10,
          high_date = \<lparr>year = 2024, month = 1, day = 3\<rparr>,
          low_date = \<lparr>year = 2024, month = 1, day = 3\<rparr>,
          week_change = Some 0, month_change = Some 0, ytd_change = Some 0,
          data_points_count = 1\<rparr>"
  have near: "find_nearest_value dps dt = Some (45 / 10)" for dt
    by (simp add: dps_def find_nearest_value_def nearest_step_def)
  have r: "round4 (46 / 10 - 45 / 10) = 1 / 10"
    by (simp add: round4_def round_half_even_def)
  have cd: "cnbc_date q st = Inr (toordinal (current_date st))"
    by (simp add: cnbc_date_def q_def)
  from generate_dashboard_spread_unapplied [of dps st "Some q"]
  obtain db where db: "generate_dashboard dps st (Some q) = Inr db"
    "\<not> spread_ok db \<longrightarrow>
          spread db = 0 \<and> chart_subtitle db = Unadjusted \<and> yields_json db = map yield dps"
    "\<forall>q' v dt. Some q = Some q' \<and> quote_yield q' = Some v \<and> cnbc_date q' st = Inr dt \<longrightarrow>
          (let s = round4 (v - (case find_nearest_value dps dt of
                                  None \<Rightarrow> current_yield st | Some m \<Rightarrow> m))
           in \<not> (40 / 100 \<le> s \<and> s \<le> 1) \<longrightarrow>
                \<not> spread_ok db \<and> spread db = 0 \<and> warning db = Some s)"
    by blast
  have qy: "quote_yield q = Some (46 / 10)" by (simp add: q_def)
  from db(3) qy cd
  have "let s = round4 (46 / 10 - (case find_nearest_value dps (toordinal (current_date st)) of
                                  None \<Rightarrow> current_yield st | Some m \<Rightarrow> m))
        in \<not> (40 / 100 \<le> s \<and> s \<le> 1) \<longrightarrow>
                \<not> spread_ok db \<and> spread db = 0 \<and> warning db = Some s"
    by blast
  then have w: "\<not> spread_ok db \<and> spread db = 0 \<and> warning db = Some (1 / 10)"
    using r by (simp add: near Let_def)
  with db(2) have u: "chart_subtitle db = Unadjusted \<and> yields_json db = [45 / 10]"
    by (simp add: dps_def)
  have hl: "has_live (Some q)" by (simp add: has_live_def q_def)
  have rest: "dates_json db = map date dps \<and> headline_yield db = 46 / 10 \<and> headline_live db = True"
    using db(1) hl
    by (auto simp add: generate_dashboard_def Let_def q_def split: sum.splits if_splits)
  have "db = \<lparr>dates_json = [\<lparr>year = 2024, month = 1, day = 3\<rparr>], yields_json = [45 / 10],
              spread = 0, spread_ok = False, headline_yield = 46 / 10, headline_live = True,
              chart_subtitle = Unadjusted, warning = Some (1 / 10)\<rparr>"
    using w u rest by (cases db) (simp add: dps_def)
  with db(1) show ?thesis unfolding dps_def q_def st_def by simp
qed

section \<open>Properties of the feed parser\<close>

subsection \<open>The order of the date texts\<close>

lemma of_char_digit: "k < 10 \<Longrightarrow> (of_char (''0123456789'' ! k) :: nat) = 48 + k"
  by (auto simp add: nth_Cons split: nat.splits)

lemma digit_char_less: "digit_char m < digit_char n \<longleftrightarrow> m mod 10 < n mod 10"
  by (simp add: less_char_def digit_char_def of_char_digit)

lemma digit_char_eq: "digit_char m = digit_char n \<longleftrightarrow> m mod 10 = n mod 10"
proof
  assume "digit_char m = digit_char n"
  then have "(of_char (digit_char m) :: nat) = of_char (digit_char n)" by simp
  then show "m mod 10 = n mod 10" by (simp add: digit_char_def of_char_digit)
next
  assume "m mod 10 = n mod 10"
  then show "digit_char m = digit_char n" by (simp add: digit_char_def)
qed

lemma less_by_tens:
  "m < n \<longleftrightarrow> m div 10 < n div 10 \<or> (m div 10 = n div 10 \<and> m mod 10 < n mod 10)" for m n :: nat
proof -
  define q1 r1 q2 r2 where "q1 = m div 10" and "r1 = m mod 10" and "q2 = n div 10" and "r2 = n mod 10"
  have "m = 10 * q1 + r1" "n = 10 * q2 + r2" "r1 < 10" "r2 < 10"
    by (simp_all add: q1_def r1_def q2_def r2_def)
  then show ?thesis
    unfolding q1_def [symmetric] r1_def [symmetric] q2_def [symmetric] r2_def [symmetric]
    by arith
qed

lemma less_by_hundreds:
  "m < n \<longleftrightarrow> m div 100 < n div 100 \<or> (m div 100 = n div 100 \<and> m mod 100 < n mod 100)"
  for m n :: nat
proof -
  define q1 r1 q2 r2 where "q1 = m div 100" and "r1 = m mod 100" and "q2 = n div 100" and "r2 = n mod 100"
  have "m = 100 * q1 + r1" "n = 100 * q2 + r2" "r1 < 100" "r2 < 100"
    by (simp_all add: q1_def r1_def q2_def r2_def)
  then show ?thesis
    unfolding q1_def [symmetric] r1_def [symmetric] q2_def [symmetric] r2_def [symmetric]
    by arith
qed

lemma eq_by_div_mod: "m = n \<longleftrightarrow> m div k = n div k \<and> m mod k = n mod k" for m n k :: nat
  by (metis div_mult_mod_eq)

lemma pad2_le:
  assumes "m < 100" "n < 100"
  shows "pad2 m @ s \<le> pad2 n @ t \<longleftrightarrow> m < n \<or> (m = n \<and> s \<le> t)"
proof -
  have m: "m div 10 mod 10 = m div 10" and n: "n div 10 mod 10 = n div 10"
    using assms by simp_all
  have "pad2 m @ s \<le> pad2 n @ t \<longleftrightarrow>
        m div 10 < n div 10 \<or> (m div 10 = n div 10 \<and>
          (m mod 10 < n mod 10 \<or> (m mod 10 = n mod 10 \<and> s \<le> t)))"
    by (simp add: pad2_def digit_char_less digit_char_eq m n)
  also have "\<dots> \<longleftrightarrow> m < n \<or> (m = n \<and> s \<le> t)"
    using less_by_tens [of m n] eq_by_div_mod [of m n 10] by blast
  finally show ?thesis .
qed

lemma year_text_pad2:
  assumes "1000 \<le> y" "y \<le> 9999"
  shows "year_text y = pad2 (y div 100) @ pad2 (y mod 100)"
proof -
  have "y div 100 div 10 = y div 1000" by (simp add: div_mult2_eq [symmetric])
  then have a: "digit_char (y div 1000) = digit_char (y div 100 div 10)" by simp
  have "y mod (10 * 10) = 10 * (y div 10 mod 10) + y mod 10" by (rule mod_mult2_eq)
  then have "y mod 100 div 10 = y div 10 mod 10" by simp
  then have b: "digit_char (y div 10) = digit_char (y mod 100 div 10)"
    by (simp add: digit_char_eq)
  have c: "digit_char y = digit_char (y mod 100)"
    by (simp add: digit_char_eq mod_mod_cancel)
  from a b c assms show ?thesis by (simp add: year_text_def pad2_def)
qed

lemma year_text_le:
  assumes "1000 \<le> y" "y \<le> 9999" "1000 \<le> z" "z \<le> 9999"
  shows "year_text y @ s \<le> year_text z @ t \<longleftrightarrow> y < z \<or> (y = z \<and> s \<le> t)"
proof -
  have lt: "y div 100 < 100" "z div 100 < 100" "y mod 100 < 100" "z mod 100 < 100"
    using assms by simp_all
  have "year_text y @ s \<le> year_text z @ t \<longleftrightarrow>
        y div 100 < z div 100 \<or> (y div 100 = z div 100 \<and>
          (y mod 100 < z mod 100 \<or> (y mod 100 = z mod 100 \<and> s \<le> t)))"
    by (simp add: year_text_pad2 assms pad2_le lt)
  also have "\<dots> \<longleftrightarrow> y < z \<or> (y = z \<and> s \<le> t)"
    using less_by_hundreds [of y z] eq_by_div_mod [of y z 100] by blast
  finally show ?thesis .
qed

lemma strftime_ymd_le:
  assumes "1000 \<le> year a" "year a \<le> 9999" "1000 \<le> year b" "year b \<le> 9999"
    and "month a < 100" "month b < 100" "day a < 100" "day b < 100"
  shows "strftime_ymd a \<le> strftime_ymd b \<longleftrightarrow> date_key a \<le> date_key b"
proof -
  have d: "pad2 (day a) \<le> pad2 (day b) \<longleftrightarrow> day a \<le> day b"
    using pad2_le [OF assms(7,8), of "[]" "[]"] by auto
  have m: "pad2 (month a) @ CHR ''-'' # pad2 (day a) \<le> pad2 (month b) @ CHR ''-'' # pad2 (day b)
      \<longleftrightarrow> month a < month b \<or> (month a = month b \<and> day a \<le> day b)"
    by (simp add: pad2_le assms d)
  have "strftime_ymd a \<le> strftime_ymd b \<longleftrightarrow>
      year a < year b \<or> (year a = year b \<and>
        (month a < month b \<or> (month a = month b \<and> day a \<le> day b)))"
    unfolding strftime_ymd_def
    by (simp only: year_text_le [OF assms(1-4)]) (simp add: m)
  also have "\<dots> \<longleftrightarrow> date_key a \<le> date_key b"
    by (auto simp add: date_key_def less_eq_prod_def less_prod_def)
  finally show ?thesis .
qed


subsection \<open>The dates of the parser are dates of the calendar\<close>

lemma days_in_month_le: "m \<le> 12 \<Longrightarrow> days_in_month y m \<le> 31"
proof -
  assume "m \<le> 12"
  then have "m \<in> {0, 1, 2, 3, 4, 5, 6, 7, 8, 9, 10, 11, 12}" by simp arith
  then show ?thesis by (auto simp add: days_in_month_def)
qed

lemma make_date_calendar: "make_date y m d = Inr x \<Longrightarrow> calendar_date x"
  using days_in_month_le [of m y]
  by (auto simp add: make_date_def calendar_date_def split: if_splits)

lemma strptime_calendar: "strptime s f = Inr x \<Longrightarrow> calendar_date x"
  by (auto simp add: strptime_def split: list.splits prod.splits if_splits dest: make_date_calendar)

lemma try_formats_calendar: "try_formats s fmts = Inr x \<Longrightarrow> calendar_date x"
  by (induction fmts) (auto split: sum.splits if_splits dest: strptime_calendar)

lemma parse_boe_date_calendar: "parse_boe_date s = Inr x \<Longrightarrow> calendar_date x"
  by (simp add: parse_boe_date_def try_formats_calendar)

lemma valid_observation_calendar:
  "valid_observation i j row = Some x \<Longrightarrow> calendar_date (date x)"
  by (auto simp add: valid_observation_def split: if_splits sum.splits
      dest: parse_boe_date_calendar)

lemma map_filter_set: "x \<in> set (List.map_filter f xs) \<Longrightarrow> \<exists>y \<in> set xs. f y = Some x"
  by (induction xs) (auto simp add: map_filter_simps split: option.splits)

lemma valid_observations_calendar:
  "x \<in> set (valid_observations rows) \<Longrightarrow> calendar_date (date x)"
  by (induction rows) (auto split: if_splits dest!: map_filter_set valid_observation_calendar)

subsection \<open>Exceptions of a row\<close>

lemma find_index_from_None: "find_index_from n P xs = None \<longleftrightarrow> (\<forall>x \<in> set xs. \<not> P x)"
  by (induction xs arbitrary: n) auto

lemma find_index_None: "find_index P xs = None \<longleftrightarrow> (\<forall>x \<in> set xs. \<not> P x)"
  by (simp add: find_index_def find_index_from_None)

lemma try_formats_error: "try_formats s fmts = Inl e \<Longrightarrow> e = ValueError"
  by (induction fmts) (auto split: sum.splits if_splits dest: strptime_error)

lemma parse_boe_date_error: "parse_boe_date s = Inl e \<Longrightarrow> e = ValueError"
  by (simp add: parse_boe_date_def try_formats_error)

lemma py_float_error: "py_float s = Inl e \<Longrightarrow> e = ValueError"
  by (auto simp add: py_float_def Let_def split: if_splits prod.splits option.splits)

lemma getitem_error: "getitem xs (Some i) = Inl e \<Longrightarrow> e = IndexError"
  by (simp add: getitem_def split: if_splits)

lemma read_row_error:
  assumes "read_row (Some i) (Some j) row = Inl e"
  shows "e = ValueError \<or> e = IndexError"
  using assms
  by (auto simp add: read_row_def Let_def split: sum.splits if_splits
      dest: getitem_error parse_boe_date_error py_float_error)

lemma read_row_Some:
  "valid_observation i j row = Some x \<Longrightarrow> read_row (Some i) (Some j) row = Inr (Some x)"
  by (auto simp add: read_row_def valid_observation_def getitem_def Let_def
      split: sum.splits if_splits)

lemma read_row_None:
  "valid_observation i j row = None \<Longrightarrow>
   read_row (Some i) (Some j) row = Inr None \<or> (\<exists>e. read_row (Some i) (Some j) row = Inl e)"
  by (auto simp add: read_row_def valid_observation_def getitem_def Let_def
      split: sum.splits if_splits)

subsection \<open>The loop collects the observations of the valid rows\<close>

lemma blank_row_invalid: "blank_row row \<Longrightarrow> valid_observation i j row = None"
  by (auto simp add: blank_row_def valid_observation_def list_all_length)

lemma blank_row_no_header: "blank_row row \<Longrightarrow> \<not> is_header row"
  by (auto simp add: blank_row_def is_header_def upper_row_def upper_def list_all_iff)

lemma parse_row_found:
  assumes "header_found st" "date_col st = Some i" "yield_col st = Some j"
  shows "parse_row st row =
     Inr (st\<lparr>data_points := data_points st @
            (case valid_observation i j row of None \<Rightarrow> [] | Some x \<Rightarrow> [x])\<rparr>)"
proof (cases "blank_row row")
  case True
  then show ?thesis by (simp add: parse_row_def blank_row_invalid)
next
  case nb: False
  show ?thesis
  proof (cases "valid_observation i j row")
    case None
    from read_row_None [OF None] show ?thesis
    proof
      assume "read_row (Some i) (Some j) row = Inr None"
      with nb assms None show ?thesis by (simp add: parse_row_def)
    next
      assume "\<exists>e. read_row (Some i) (Some j) row = Inl e"
      then obtain e where e: "read_row (Some i) (Some j) row = Inl e" ..
      from read_row_error [OF e] e nb assms None show ?thesis
        by (auto simp add: parse_row_def)
    qed
  next
    case (Some x)
    from read_row_Some [OF Some] nb assms Some show ?thesis
      by (simp add: parse_row_def)
  qed
qed

lemma parse_rows_found:
  assumes "header_found st" "date_col st = Some i" "yield_col st = Some j"
  shows "parse_rows st rows =
     Inr (st\<lparr>data_points := data_points st @ List.map_filter (valid_observation i j) rows\<rparr>)"
  using assms
proof (induction rows arbitrary: st)
  case Nil
  show ?case by (simp add: map_filter_simps)
next
  case (Cons row rows)
  define st1 where "st1 = st\<lparr>data_points := data_points st @
            (case valid_observation i j row of None \<Rightarrow> [] | Some x \<Rightarrow> [x])\<rparr>"
  have r: "parse_row st row = Inr st1"
    unfolding st1_def using Cons.prems by (rule parse_row_found)
  have "header_found st1" "date_col st1 = Some i" "yield_col st1 = Some j"
    using Cons.prems by (simp_all add: st1_def)
  from Cons.IH [OF this] r show ?case
    by (simp add: st1_def map_filter_simps split: option.splits)
qed

lemma header_candidate_header:
  assumes "\<not> header_found st" "yield_col st = None" "is_header row"
  shows "header_found (header_candidate st row)
       \<and> date_col (header_candidate st row)
           = Some (the (find_index (\<lambda>cell. cell = ''DATE'') (upper_row row)))
       \<and> yield_col (header_candidate st row)
           = Some (the (find_index (contains SERIES_CODE) (upper_row row)))
       \<and> data_points (header_candidate st row) = data_points st"
proof -
  from assms(3) have "find_index (\<lambda>cell. cell = ''DATE'') (upper_row row) \<noteq> None"
    and "find_index (contains SERIES_CODE) (upper_row row) \<noteq> None"
    by (auto simp add: is_header_def find_index_None list_ex_iff)
  then show ?thesis
    by (auto simp add: header_candidate_def Let_def)
qed

lemma header_candidate_no_header:
  assumes "\<not> header_found st" "yield_col st = None" "\<not> is_header row"
    "''DATE'' \<in> set (upper_row row)"
  shows "\<not> header_found (header_candidate st row)
       \<and> yield_col (header_candidate st row) = None
       \<and> data_points (header_candidate st row) = data_points st"
proof -
  from assms(3,4) have "find_index (contains SERIES_CODE) (upper_row row) = None"
    by (auto simp add: is_header_def find_index_None list_ex_iff)
  with assms(1,2) show ?thesis
    by (simp add: header_candidate_def Let_def)
qed

lemma parse_rows_unfound:
  assumes "\<not> header_found st" "yield_col st = None"
  shows "\<exists>st'. parse_rows st rows = Inr st'
       \<and> data_points st' = data_points st @ valid_observations rows"
  using assms
proof (induction rows arbitrary: st)
  case Nil
  show ?case by simp
next
  case (Cons row rows)
  show ?case
  proof (cases "is_header row")
    case True
    then have nb: "\<not> blank_row row" using blank_row_no_header by blast
    from True have dt: "''DATE'' \<in> set (upper_row row)" by (simp add: is_header_def)
    define st1 where "st1 = header_candidate st row"
    from header_candidate_header [OF Cons.prems True]
    have h: "header_found st1"
        "date_col st1 = Some (the (find_index (\<lambda>cell. cell = ''DATE'') (upper_row row)))"
        "yield_col st1 = Some (the (find_index (contains SERIES_CODE) (upper_row row)))"
        "data_points st1 = data_points st"
      by (simp_all add: st1_def)
    have r: "parse_row st row = Inr st1"
      using nb dt Cons.prems(1) by (simp add: parse_row_def st1_def)
    from parse_rows_found [OF h(1-3), of rows] r True h(4) show ?thesis
      by simp
  next
    case False
    show ?thesis
    proof (cases "\<not> blank_row row \<and> ''DATE'' \<in> set (upper_row row)")
      case True
      define st1 where "st1 = header_candidate st row"
      from header_candidate_no_header [OF Cons.prems False] True
      have h: "\<not> header_found st1" "yield_col st1 = None" "data_points st1 = data_points st"
        by (simp_all add: st1_def)
      have r: "parse_row st row = Inr st1"
        using True Cons.prems(1) by (simp add: parse_row_def st1_def)
      from Cons.IH [OF h(1,2)] r False h(3) show ?thesis by simp
    next
      case nd: False
      have r: "parse_row st row = Inr st"
        using nd Cons.prems(1) by (auto simp add: parse_row_def)
      from Cons.IH [OF Cons.prems] r False show ?thesis by simp
    qed
  qed
qed

lemma parse_rows_initial:
  "\<exists>st. parse_rows initial_state rows = Inr st \<and> data_points st = valid_observations rows"
  using parse_rows_unfound [of initial_state rows] by (simp add: initial_state_def)

subsection \<open>Exceptions of the reader\<close>

lemma parse_add_char_error: "parse_add_char r c = Inl e \<Longrightarrow> e = CsvError"
  by (simp add: parse_add_char_def split: if_splits)

lemma start_field_error: "start_field r c = Inl e \<Longrightarrow> e = CsvError"
  by (auto simp add: start_field_def split: if_splits sum.splits dest: parse_add_char_error)

lemma parse_process_char_error: "parse_process_char r c = Inl e \<Longrightarrow> e = CsvError"
  by (auto simp add: parse_process_char_def
      split: reader_mode.splits if_splits sum.splits
      dest: parse_add_char_error start_field_error)

lemma process_line_error: "process_line r l = Inl e \<Longrightarrow> e = CsvError"
  by (induction l arbitrary: r) (auto split: sum.splits dest: parse_process_char_error)

lemma read_rows_error: "read_rows r ls = (rows, Some e) \<Longrightarrow> e = CsvError"
  by (induction ls arbitrary: r rows)
    (auto split: sum.splits if_splits prod.splits dest: process_line_error)

lemma csv_reader_error: "csv_reader t = (rows, Some e) \<Longrightarrow> e = CsvError"
  by (simp add: csv_reader_def read_rows_error)

lemma parse_boe_csv_rows:
  assumes "csv_reader csv_text = (rows, None)"
  shows "parse_boe_csv csv_text = Inr (sort_key date_text (valid_observations rows))"
  using parse_rows_initial [of rows] assms by (auto simp add: parse_boe_csv_def)

lemma parse_boe_csv_reader_error:
  assumes "csv_reader csv_text = (rows, Some e)"
  shows "parse_boe_csv csv_text = Inl CsvError"
  using parse_rows_initial [of rows] assms csv_reader_error [OF assms]
  by (auto simp add: parse_boe_csv_def)


lemma parse_row_skips:
  assumes "header_found st" "date_col st = Some i" "yield_col st = Some j"
    and "length row \<le> i \<or> length row \<le> j
       \<or> strip (row ! i) = [] \<or> strip (row ! j) = []
       \<or> (\<forall>d. parse_boe_date (strip (row ! i)) \<noteq> Inr d)
       \<or> (\<forall>v. py_float (strip (row ! j)) \<noteq> Inr v)"
  shows "parse_row st row = Inr st"
proof -
  have "valid_observation i j row = None"
    using assms(4) by (auto simp add: valid_observation_def split: sum.splits)
  with parse_row_found [OF assms(1-3), of row] show ?thesis by simp
qed

text \<open>
  C9, as the code has it. The only exception that leaves the parser is the \<open>Error\<close> of the
  CSV reader, raised by the reader on the text itself; on every text whose rows the reader
  yields, the parser returns a series, the sorted observations of the valid rows. The
  caller reports a \<open>RuntimeError\<close> exactly when that series is empty, and passes a series
  that is not empty on. After the header, a row that lacks the date or the value column,
  or has one of the two cells empty, or a date that no format of the list reads, or a
  value that is no number, leaves the state of the parser as it was: the row is skipped
  and the parse goes on.
\<close>

theorem parse_boe_csv_failures:
  "(\<forall>e. parse_boe_csv csv_text = Inl e \<longrightarrow>
        e = CsvError \<and> snd (csv_reader csv_text) = Some CsvError)
   \<and> (snd (csv_reader csv_text) = None \<longrightarrow>
        parse_boe_csv csv_text
          = Inr (sort_key date_text (valid_observations (fst (csv_reader csv_text)))))
   \<and> (fetch_and_generate csv_text = Inl RuntimeError \<longleftrightarrow> parse_boe_csv csv_text = Inr [])
   \<and> (\<forall>s. parse_boe_csv csv_text = Inr s \<and> s \<noteq> [] \<longrightarrow> fetch_and_generate csv_text = Inr s)
   \<and> (\<forall>st row i j.
        header_found st \<and> date_col st = Some i \<and> yield_col st = Some j
        \<and> (length row \<le> i \<or> length row \<le> j
           \<or> strip (row ! i) = [] \<or> strip (row ! j) = []
           \<or> (\<forall>d. parse_boe_date (strip (row ! i)) \<noteq> Inr d)
           \<or> (\<forall>v. py_float (strip (row ! j)) \<noteq> Inr v))
        \<longrightarrow> parse_row st row = Inr st)"
proof -
  obtain rows err where cr: "csv_reader csv_text = (rows, err)" by (cases "csv_reader csv_text")
  have a: "\<forall>e. parse_boe_csv csv_text = Inl e \<longrightarrow>
        e = CsvError \<and> snd (csv_reader csv_text) = Some CsvError"
  proof (cases err)
    case None
    with parse_boe_csv_rows cr show ?thesis by simp
  next
    case (Some e)
    with parse_boe_csv_reader_error [of csv_text rows e] csv_reader_error [of csv_text rows e] cr
    show ?thesis by simp
  qed
  have b: "snd (csv_reader csv_text) = None \<longrightarrow>
        parse_boe_csv csv_text
          = Inr (sort_key date_text (valid_observations (fst (csv_reader csv_text))))"
    using parse_boe_csv_rows [of csv_text rows] cr by simp
  have c: "fetch_and_generate csv_text = Inl RuntimeError \<longleftrightarrow> parse_boe_csv csv_text = Inr []"
    using a by (auto simp add: fetch_and_generate_def split: sum.splits)
  have d: "\<forall>s. parse_boe_csv csv_text = Inr s \<and> s \<noteq> [] \<longrightarrow> fetch_and_generate csv_text = Inr s"
    by (simp add: fetch_and_generate_def)
  have e: "\<forall>st row i j.
        header_found st \<and> date_col st = Some i \<and> yield_col st = Some j
        \<and> (length row \<le> i \<or> length row \<le> j
           \<or> strip (row ! i) = [] \<or> strip (row ! j) = []
           \<or> (\<forall>d. parse_boe_date (strip (row ! i)) \<noteq> Inr d)
           \<or> (\<forall>v. py_float (strip (row ! j)) \<noteq> Inr v))
        \<longrightarrow> parse_row st row = Inr st"
    using parse_row_skips by blast
  from a b c d e show ?thesis by blast
qed

text \<open>
  C9, as stated, fails: on a text with a carriage return inside a line the reader raises
  its \<open>Error\<close>, outside the handler of the rows, and the error leaves the parser.
\<close>

theorem parse_boe_csv_raises:
  "parse_boe_csv (''DATE,IUDMNZC\<newline>01 Jan 2024,4.00'' @ [CHR 0x0D] @ ''x'') = Inl CsvError"
  by code_simp

theorem parse_boe_csv_failures_witness:
  "parse_boe_csv ''junk\<newline>DATE,IUDMNZC\<newline>bad,1\<newline>03 Jan 2024,\<newline>04 Jan 2024,x\<newline>05 Jan 2024\<newline>'' = Inr []
   \<and> fetch_and_generate ''junk\<newline>DATE,IUDMNZC\<newline>bad,1\<newline>03 Jan 2024,\<newline>04 Jan 2024,x\<newline>05 Jan 2024\<newline>''
       = Inl RuntimeError
   \<and> parse_row \<lparr>header_found = True, date_col = Some 0, yield_col = Some 1, data_points = []\<rparr>
         [''03 Jan 2024'']
       = Inr \<lparr>header_found = True, date_col = Some 0, yield_col = Some 1, data_points = []\<rparr>"
proof -
  define t where "t = ''junk\<newline>DATE,IUDMNZC\<newline>bad,1\<newline>03 Jan 2024,\<newline>04 Jan 2024,x\<newline>05 Jan 2024\<newline>''"
  define st where "st = \<lparr>header_found = True, date_col = Some 0, yield_col = Some (1::nat),
      data_points = []\<rparr>"
  have cr: "snd (csv_reader t) = None" unfolding t_def by code_simp
  have vo: "sort_key date_text (valid_observations (fst (csv_reader t))) = []"
    unfolding t_def by code_simp
  from parse_boe_csv_failures [of t]
  have run: "snd (csv_reader t) = None \<longrightarrow>
        parse_boe_csv t = Inr (sort_key date_text (valid_observations (fst (csv_reader t))))"
    and iff: "fetch_and_generate t = Inl RuntimeError \<longleftrightarrow> parse_boe_csv t = Inr []"
    and skip: "\<forall>st row i j.
        header_found st \<and> date_col st = Some i \<and> yield_col st = Some j
        \<and> (length row \<le> i \<or> length row \<le> j
           \<or> strip (row ! i) = [] \<or> strip (row ! j) = []
           \<or> (\<forall>d. parse_boe_date (strip (row ! i)) \<noteq> Inr d)
           \<or> (\<forall>v. py_float (strip (row ! j)) \<noteq> Inr v))
        \<longrightarrow> parse_row st row = Inr st"
    by blast+
  from run cr vo have ev: "parse_boe_csv t = Inr []" by simp
  with iff have f: "fetch_and_generate t = Inl RuntimeError" by simp
  have "header_found st \<and> date_col st = Some 0 \<and> yield_col st = Some 1
        \<and> length [''03 Jan 2024''] \<le> (1::nat)"
    by (simp add: st_def)
  with skip have "parse_row st [''03 Jan 2024''] = Inr st" by blast
  with ev f show ?thesis unfolding t_def st_def by simp
qed

lemma sorted_date_key:
  assumes "sorted (map date_text s)"
    and "\<forall>x \<in> set s. calendar_date (date x) \<and> 1000 \<le> year (date x)"
  shows "sorted (map (\<lambda>x. date_key (date x)) s)"
proof -
  have "sorted_wrt (\<lambda>x y. date_text x \<le> date_text y) s"
    using assms(1) by (simp add: sorted_map)
  then have "sorted_wrt (\<lambda>x y. date_key (date x) \<le> date_key (date y)) s"
  proof (rule sorted_wrt_mono_rel [rotated])
    fix x y assume xy: "x \<in> set s" "y \<in> set s" and le: "date_text x \<le> date_text y"
    from assms(2) xy have c: "1000 \<le> year (date x)" "year (date x) \<le> 9999"
        "1000 \<le> year (date y)" "year (date y) \<le> 9999"
        "month (date x) < 100" "month (date y) < 100" "day (date x) < 100" "day (date y) < 100"
      by (auto simp add: calendar_date_def)
    from strftime_ymd_le [OF c] le show "date_key (date x) \<le> date_key (date y)"
      by (simp add: date_text_def)
  qed
  then show ?thesis by (simp add: sorted_map)
qed

text \<open>
  C2, as the code has it. On a text whose rows the reader yields, the parser returns the
  observations of the valid rows after the header, one for each valid row, sorted by the
  date text: the text of an observation is greater than or equal to the text of the one
  before it, and the observations of one date are all there, in the order of the feed.
  When the years have four digits, from 1000 on, the dates themselves are in ascending
  order, each later than or equal to the one before it.
\<close>

theorem parse_boe_csv_sorted:
  assumes "csv_reader csv_text = (rows, None)"
  shows "\<exists>s. parse_boe_csv csv_text = Inr s
     \<and> s = sort_key date_text (valid_observations rows)
     \<and> length s = length (valid_observations rows)
     \<and> sorted (map date_text s)
     \<and> (\<forall>t. filter (\<lambda>x. date_text x = t) s
            = filter (\<lambda>x. date_text x = t) (valid_observations rows))
     \<and> ((\<forall>x \<in> set s. 1000 \<le> year (date x)) \<longrightarrow> sorted (map (\<lambda>x. date_key (date x)) s))"
proof -
  define s where "s = sort_key date_text (valid_observations rows)"
  have p: "parse_boe_csv csv_text = Inr s"
    unfolding s_def using assms by (rule parse_boe_csv_rows)
  have l: "length s = length (valid_observations rows)" by (simp add: s_def)
  have srt: "sorted (map date_text s)" by (simp add: s_def)
  have stab: "\<forall>t. filter (\<lambda>x. date_text x = t) s
            = filter (\<lambda>x. date_text x = t) (valid_observations rows)"
    by (simp add: s_def sort_key_stable)
  have cal: "\<forall>x \<in> set s. calendar_date (date x)"
    by (simp add: s_def valid_observations_calendar)
  have chron: "(\<forall>x \<in> set s. 1000 \<le> year (date x)) \<longrightarrow> sorted (map (\<lambda>x. date_key (date x)) s)"
    using sorted_date_key [OF srt] cal by blast
  from p l srt stab chron show ?thesis by (simp add: s_def)
qed

text \<open>
  C2, as stated, fails: two rows of one date, here written in two formats, give two
  observations with the same date.
\<close>

theorem parse_boe_csv_duplicate_dates:
  "parse_boe_csv ''DATE,IUDMNZC\<newline>01 Jan 2024,4.00\<newline>01/01/2024,4.10\<newline>''
   = Inr [\<lparr>date = \<lparr>year = 2024, month = 1, day = 1\<rparr>, yield = Finite 4\<rparr>,
          \<lparr>date = \<lparr>year = 2024, month = 1, day = 1\<rparr>, yield = Finite (41 / 10)\<rparr>]
   \<and> \<not> distinct (map date
          [\<lparr>date = \<lparr>year = 2024, month = 1, day = 1\<rparr>, yield = Finite 4\<rparr>,
           \<lparr>date = \<lparr>year = 2024, month = 1, day = 1\<rparr>, yield = Finite (41 / 10)\<rparr>])"
  by code_simp

theorem parse_boe_csv_sorted_witness:
  "parse_boe_csv ''DATE,IUDMNZC\<newline>02 Jan 2024,4.10\<newline>x,y\<newline>01 Jan 2024,4.00\<newline>02 Jan 2024,nan\<newline>''
   = Inr [\<lparr>date = \<lparr>year = 2024, month = 1, day = 1\<rparr>, yield = Finite 4\<rparr>,
          \<lparr>date = \<lparr>year = 2024, month = 1, day = 2\<rparr>, yield = Finite (41 / 10)\<rparr>,
          \<lparr>date = \<lparr>year = 2024, month = 1, day = 2\<rparr>, yield = NotANumber\<rparr>]"
proof -
  define t where "t = ''DATE,IUDMNZC\<newline>02 Jan 2024,4.10\<newline>x,y\<newline>01 Jan 2024,4.00\<newline>02 Jan 2024,nan\<newline>''"
  define rows where "rows = [[''DATE'', ''IUDMNZC''], [''02 Jan 2024'', ''4.10''], [''x'', ''y''],
      [''01 Jan 2024'', ''4.00''], [''02 Jan 2024'', ''nan'']]"
  have cr: "csv_reader t = (rows, None)" unfolding t_def rows_def by code_simp
  have ev: "sort_key date_text (valid_observations rows) =
      [\<lparr>date = \<lparr>year = 2024, month = 1, day = 1\<rparr>, yield = Finite 4\<rparr>,
       \<lparr>date = \<lparr>year = 2024, month = 1, day = 2\<rparr>, yield = Finite (41 / 10)\<rparr>,
       \<lparr>date = \<lparr>year = 2024, month = 1, day = 2\<rparr>, yield = NotANumber\<rparr>]"
    unfolding rows_def by code_simp
  from parse_boe_csv_sorted [OF cr]
  have "parse_boe_csv t = Inr (sort_key date_text (valid_observations rows))" by blast
  with ev show ?thesis unfolding t_def by simp
qed

text \<open>
  C3. A feed whose observation nearest to each of the three targets has the yield
  \<open>0.00\<close>: the parser returns the two observations, the lookup on them returns that value,
  \<open>Some 0\<close>, and the three changes are \<open>None\<close>, where the rounded difference to the latest
  yield is \<open>0.05\<close>.
\<close>

theorem compute_stats_zero_lookup:
  "fetch_and_generate ''DATE,IUDMNZC\<newline>03 Jan 2024,0.00\<newline>10 Jan 2024,0.05\<newline>''
   = Inr [\<lparr>date = \<lparr>year = 2024, month = 1, day = 3\<rparr>, yield = Finite 0\<rparr>,
          \<lparr>date = \<lparr>year = 2024, month = 1, day = 10\<rparr>, yield = Finite (5 / 100)\<rparr>]
   \<and> finite_series
        [\<lparr>date = \<lparr>year = 2024, month = 1, day = 3\<rparr>, yield = Finite 0\<rparr>,
         \<lparr>date = \<lparr>year = 2024, month = 1, day = 10\<rparr>, yield = Finite (5 / 100)\<rparr>]
       = Some [\<lparr>date = \<lparr>year = 2024, month = 1, day = 3\<rparr>, yield = 0\<rparr>,
               \<lparr>date = \<lparr>year = 2024, month = 1, day = 10\<rparr>, yield = 5 / 100\<rparr>]
   \<and> compute_stats
        [\<lparr>date = \<lparr>year = 2024, month = 1, day = 3\<rparr>, yield = 0\<rparr>,
         \<lparr>date = \<lparr>year = 2024, month = 1, day = 10\<rparr>, yield = 5 / 100\<rparr>]
       = Inr (Some \<lparr>current_yield = 5 / 100,
                current_date = \<lparr>year = 2024, month = 1, day = 10\<rparr>,
                previous_yield = 0, daily_change = 5 / 100, high_12m = 5 / 100, low_12m = 0,
                high_date = \<lparr>year = 2024, month = 1, day = 10\<rparr>,
                low_date = \<lparr>year = 2024, month = 1, day = 3\<rparr>,
                week_change = None, month_change = None, ytd_change = None,
                data_points_count = 2\<rparr>)
   \<and> find_nearest_value
        [\<lparr>date = \<lparr>year = 2024, month = 1, day = 3\<rparr>, yield = 0\<rparr>,
         \<lparr>date = \<lparr>year = 2024, month = 1, day = 10\<rparr>, yield = 5 / 100\<rparr>]
        (toordinal \<lparr>year = 2024, month = 1, day = 10\<rparr> - 7) = Some 0
   \<and> round4 (5 / 100 - 0) = 5 / 100"
  by code_simp

end
